theory Spec2Isabelle
  imports Main "HOL-Library.AList" "HOL-Library.Sublist" "HOL-Library.List_Lexorder"
    "HOL-Library.Char_ord"
begin

section \<open>Values\<close>

text \<open>
  Parsed JSON, as the HTTP client returns it, as \<open>transform_json\<close> passes it on and as
  singer's \<open>Transformer\<close> returns it. A Python dict is an association list in insertion
  order; \<open>map_of\<close> reads it and \<open>AList.update\<close> writes it (an existing key keeps its place,
  a new key goes last). A date-time is the string the source holds, never its instant:
  Python orders two strings character by character, which is the order of \<open>string\<close> here.
\<close>

datatype json =
    JNull
  | JBool bool
  | JInt int
  | JStr string
  | JList "json list"
  | JObj "(string \<times> json) list"

type_synonym dict = "(string \<times> json) list"

text \<open>Python truthiness (\<open>if x\<close>, \<open>not x\<close>).\<close>

fun truthy :: "json \<Rightarrow> bool" where
  "truthy JNull = False"
| "truthy (JBool b) = b"
| "truthy (JInt n) = (n \<noteq> 0)"
| "truthy (JStr s) = (s \<noteq> [])"
| "truthy (JList xs) = (xs \<noteq> [])"
| "truthy (JObj kvs) = (kvs \<noteq> [])"

definition truthy_str :: "string option \<Rightarrow> bool" where
  "truthy_str s = (case s of None \<Rightarrow> False | Some t \<Rightarrow> t \<noteq> [])"

datatype error =
    TypeError
  | AttributeError
  | KeyError
  | ValueError
  | OverflowError
  | OSError
  | Failure string

section \<open>The world outside: sink, client, clock\<close>

datatype message =
    SCHEMA string
  | RECORD string dict int
  | STATE dict

record request =
  r_method :: "string option"
  r_url :: "string option"
  r_path :: "string option"
  r_params :: "string option"
  r_endpoint :: string

text \<open>
  One call of \<open>client.request\<close>, with the loop counters and the parameter dictionary
  at the time of the call (\<open>None\<close> for the parent listing, which is requested outside the
  page loop).
\<close>

record call =
  c_request :: request
  c_page :: "(nat \<times> int) option"
  c_params :: dict

text \<open>
  What the run changes: the messages written to the sink, the calls made to the client,
  the date windows the window loop has entered (as \<open>(start_window, end_window)\<close>), the
  pages of records that reached the check of the identifying fields (each with the number
  of messages written before it), the dictionary object \<open>endpoint_config['params']\<close> and
  the \<open>bookmarks\<close> entry of the state object (\<open>None\<close>: the state has no such key).
\<close>

record world =
  out :: "message list"
  reqs :: "call list"
  wins :: "(int \<times> int) list"
  pages :: "(nat \<times> json list) list"
  static_params :: dict
  bookmarks :: "dict option"

text \<open>
  The collaborators, none of them code of this repository. Each answers from the
  history so far, so a stateful server or a running clock is a function here.
  \<^item> \<open>sink_ok\<close>: whether the sink accepts a message (\<open>OSError\<close> otherwise);
  \<^item> \<open>ready_to_log\<close>: \<open>Counter._ready_to_log()\<close> of singer's record counter, asked by
    \<open>increment\<close> after the messages written so far: true once the log interval has passed;
  \<^item> \<open>transform\<close>: singer's \<open>Transformer.transform\<close> against the stream's schema;
  \<^item> \<open>transform_json\<close>: \<open>tap_mixpanel.transform.transform_json\<close>;
  \<^item> \<open>client\<close>: \<open>client.request\<close>;
  \<^item> \<open>utils_now\<close>: \<open>singer.utils.now()\<close>, in microseconds since the epoch;
  \<^item> \<open>tzone\<close>: \<open>pytz.timezone(project_timezone)\<close>, as the first ten characters of the
    rendering of an instant normalised to that zone, or the error it raises;
  \<^item> \<open>py_str\<close>: Python's \<open>'%s' % value\<close>;
  \<^item> \<open>strptime\<close>: \<open>singer.utils.strptime_to_utc\<close>, the instant a string denotes
    (\<open>None\<close> where it raises);
  \<^item> \<open>strftime\<close>: \<open>singer.utils.strftime\<close>, the canonical rendering of an instant.
\<close>

record env =
  sink_ok :: "message \<Rightarrow> bool"
  ready_to_log :: "message list \<Rightarrow> bool"
  transform :: "string \<Rightarrow> json \<Rightarrow> error + dict"
  transform_json :: "json \<Rightarrow> string \<Rightarrow> string option \<Rightarrow> json option \<Rightarrow> error + json"
  client :: "call list \<Rightarrow> request \<Rightarrow> error + json"
  utils_now :: "call list \<Rightarrow> int"
  tzone :: "error + (int \<Rightarrow> string)"
  py_str :: "json \<Rightarrow> string"
  strptime :: "string \<Rightarrow> int option"
  strftime :: "int \<Rightarrow> string"

section \<open>Writing to the sink\<close>

definition emit :: "env \<Rightarrow> message \<Rightarrow> world \<Rightarrow> (error + unit) \<times> world" where
  "emit e m w =
     (if sink_ok e m then (Inr (), w\<lparr>out := out w @ [m]\<rparr>) else (Inl OSError, w))"

definition write_schema :: "env \<Rightarrow> string \<Rightarrow> world \<Rightarrow> (error + unit) \<times> world" where
  "write_schema e stream_name w = emit e (SCHEMA stream_name) w"

definition write_record ::
  "env \<Rightarrow> string \<Rightarrow> dict \<Rightarrow> int \<Rightarrow> world \<Rightarrow> (error + unit) \<times> world" where
  "write_record e stream_name record time_extracted w =
     emit e (RECORD stream_name record time_extracted) w"

section \<open>Bookmarks\<close>

text \<open>
  \<open>get_bookmark\<close>: the state is the dict \<open>main\<close> builds, never \<open>None\<close>; only its
  \<open>bookmarks\<close> entry is read.
\<close>

definition get_bookmark :: "world \<Rightarrow> string \<Rightarrow> json \<Rightarrow> json" where
  "get_bookmark w stream dflt =
     (case bookmarks w of
        None \<Rightarrow> dflt
      | Some b \<Rightarrow> (case map_of b stream of None \<Rightarrow> dflt | Some v \<Rightarrow> v))"

definition write_bookmark ::
  "env \<Rightarrow> string \<Rightarrow> json \<Rightarrow> world \<Rightarrow> (error + unit) \<times> world" where
  "write_bookmark e stream v w =
     (let b = (case bookmarks w of None \<Rightarrow> [] | Some b \<Rightarrow> b);
          b' = AList.update stream v b
      in emit e (STATE b') (w\<lparr>bookmarks := Some b'\<rparr>))"

section \<open>The record processor\<close>

text \<open>
  \<open>transform_datetime\<close> hands its argument to \<open>Transformer._transform_datetime\<close>, which
  returns \<open>strftime(strptime_to_utc(value))\<close>, and \<open>None\<close> for \<open>None\<close>, for the empty string
  and where the parser raises (as it does on a value that is no string).
\<close>

definition transform_datetime :: "env \<Rightarrow> json \<Rightarrow> json" where
  "transform_datetime e v =
     (case v of
        JStr s \<Rightarrow>
          (if s = [] then JNull
           else (case strptime e s of None \<Rightarrow> JNull | Some t \<Rightarrow> JStr (strftime e t)))
      | _ \<Rightarrow> JNull)"

text \<open>
  \<open>x > y\<close> and \<open>x >= y\<close> where \<open>y\<close> comes from \<open>transform_datetime\<close>, so is a string or
  \<open>None\<close>: two strings are ordered as strings, every other pair raises \<open>TypeError\<close>.
\<close>

fun py_gt :: "json \<Rightarrow> json \<Rightarrow> error + bool" where
  "py_gt (JStr a) (JStr b) = Inr (b < a)"
| "py_gt x y = Inl TypeError"

fun py_ge :: "json \<Rightarrow> json \<Rightarrow> error + bool" where
  "py_ge (JStr a) (JStr b) = Inr (b \<le> a)"
| "py_ge x y = Inl TypeError"

text \<open>\<open>record.get(key)\<close> for a key that is a string or \<open>None\<close> (\<open>None\<close>: no such key).\<close>

definition tget :: "dict \<Rightarrow> string option \<Rightarrow> json option" where
  "tget r k = (case k of None \<Rightarrow> None | Some f \<Rightarrow> map_of r f)"

text \<open>
  Lines 86-90: the running maximum. The field of the record is compared as it stands
  with the canonical rendering of the maximum.
\<close>

definition raise_max :: "env \<Rightarrow> string option \<Rightarrow> json \<Rightarrow> dict \<Rightarrow> error + json" where
  "raise_max e bookmark_field max_bookmark_value r =
     (case tget r bookmark_field of
        None \<Rightarrow> Inr max_bookmark_value
      | Some v \<Rightarrow>
          if \<not> truthy v then Inr max_bookmark_value
          else if max_bookmark_value = JNull then Inr v
          else (case py_gt v (transform_datetime e max_bookmark_value) of
                  Inl err \<Rightarrow> Inl err
                | Inr b \<Rightarrow> Inr (if b then v else max_bookmark_value)))"

text \<open>
  \<open>counter.increment()\<close>: singer's counter adds one and, when it is ready to log, logs
  its value and starts again from 0.
\<close>

definition increment :: "env \<Rightarrow> world \<Rightarrow> nat \<Rightarrow> nat" where
  "increment e w n = (if ready_to_log e (out w) then 0 else Suc n)"

text \<open>
  One turn of the loop of \<open>process_records\<close>: the accumulator is the pair of
  \<open>max_bookmark_value\<close> and \<open>counter.value\<close>.
\<close>

definition process_record ::
  "env \<Rightarrow> string \<Rightarrow> int \<Rightarrow> string option \<Rightarrow> json \<Rightarrow> json \<times> nat \<Rightarrow> json \<Rightarrow> world
     \<Rightarrow> (error + json \<times> nat) \<times> world" where
  "process_record e stream_name time_extracted bookmark_field last_datetime acc record w =
     (case transform e stream_name record of
        Inl err \<Rightarrow> (Inl err, w)
      | Inr tr \<Rightarrow>
          (case raise_max e bookmark_field (fst acc) tr of
             Inl err \<Rightarrow> (Inl err, w)
           | Inr m \<Rightarrow>
               if truthy_str bookmark_field \<and> tget tr bookmark_field \<noteq> None then
                 (case py_ge (transform_datetime e (the (tget tr bookmark_field)))
                             (transform_datetime e last_datetime) of
                    Inl err \<Rightarrow> (Inl err, w)
                  | Inr keep \<Rightarrow>
                      if keep then
                        (case write_record e stream_name tr time_extracted w of
                           (Inl err, w') \<Rightarrow> (Inl err, w')
                         | (Inr u, w') \<Rightarrow> (Inr (m, increment e w' (snd acc)), w'))
                      else (Inr (m, snd acc), w))
               else
                 (case write_record e stream_name tr time_extracted w of
                    (Inl err, w') \<Rightarrow> (Inl err, w')
                  | (Inr u, w') \<Rightarrow> (Inr (m, increment e w' (snd acc)), w'))))"

fun process_loop ::
  "env \<Rightarrow> string \<Rightarrow> int \<Rightarrow> string option \<Rightarrow> json \<Rightarrow> json \<times> nat \<Rightarrow> json list \<Rightarrow> world
     \<Rightarrow> (error + json \<times> nat) \<times> world" where
  "process_loop e sn te bf ld acc [] w = (Inr acc, w)"
| "process_loop e sn te bf ld acc (r # rs) w =
     (case process_record e sn te bf ld acc r w of
        (Inl err, w') \<Rightarrow> (Inl err, w')
      | (Inr acc', w') \<Rightarrow> process_loop e sn te bf ld acc' rs w')"

definition process_records ::
  "env \<Rightarrow> string \<Rightarrow> json list \<Rightarrow> int \<Rightarrow> string option \<Rightarrow> json \<Rightarrow> json \<Rightarrow> world
     \<Rightarrow> (error + json \<times> nat) \<times> world" where
  "process_records e stream_name records time_extracted bookmark_field
       max_bookmark_value last_datetime w =
     process_loop e stream_name time_extracted bookmark_field last_datetime
       (max_bookmark_value, 0) records w"

section \<open>Dates and durations\<close>

text \<open>
  A \<open>datetime\<close> is its instant in microseconds since the epoch; Python keeps it between
  the years 1 and 9999 and raises \<open>OverflowError\<close> outside. A \<open>timedelta\<close> is a number
  of microseconds; \<open>timedelta(days=n)\<close> raises beyond 999999999 days.
\<close>

definition day_us :: int where
  "day_us = 86400000000"

definition MINDT :: int where
  "MINDT = - 62135596800000000"

definition MAXDT :: int where
  "MAXDT = 253402300799999999"

definition timedelta_days :: "int \<Rightarrow> error + int" where
  "timedelta_days n = (if \<bar>n\<bar> \<le> 999999999 then Inr (n * day_us) else Inl OverflowError)"

definition dt_add :: "int \<Rightarrow> int \<Rightarrow> error + int" where
  "dt_add t d = (if MINDT \<le> t + d \<and> t + d \<le> MAXDT then Inr (t + d) else Inl OverflowError)"

text \<open>The \<open>days\<close> and \<open>seconds\<close> attributes of a \<open>timedelta\<close>: \<open>0 \<le> seconds < 86400\<close>.\<close>

definition td_days :: "int \<Rightarrow> int" where
  "td_days d = d div day_us"

definition td_seconds :: "int \<Rightarrow> int" where
  "td_seconds d = (d mod day_us) div 1000000"

text \<open>\<open>strptime_to_utc(value)\<close>: the parser raises on what it cannot read.\<close>

definition strptime_to_utc :: "env \<Rightarrow> json \<Rightarrow> error + int" where
  "strptime_to_utc e v =
     (case v of
        JStr s \<Rightarrow> (case strptime e s of None \<Rightarrow> Inl ValueError | Some t \<Rightarrow> Inr t)
      | _ \<Rightarrow> Inl TypeError)"

section \<open>The endpoint configuration and the arguments of \<open>sync_endpoint\<close>\<close>

text \<open>
  One entry of \<open>STREAMS\<close>. \<open>None\<close> is a key that is absent (or \<open>None\<close>); for
  \<open>data_key\<close>, whose default is \<open>'results'\<close>, \<open>None\<close> is the absent key and
  \<open>Some None\<close> the value \<open>None\<close>. The two flags default to \<open>False\<close>.
\<close>

record endpoint_config =
  cfg_url :: "string option"
  cfg_data_key :: "string option option"
  cfg_api_method :: "string option"
  cfg_parent_path :: "string option"
  cfg_parent_id_field :: "string option"
  cfg_params :: "dict option"
  cfg_bookmark_query_field_from :: "string option"
  cfg_bookmark_query_field_to :: "string option"
  cfg_key_properties :: "string list option"
  cfg_date_dictionary :: bool
  cfg_pagination :: bool

record sync_args =
  arg_start_date :: json
  arg_stream_name :: string
  arg_path :: string
  arg_endpoint_config :: endpoint_config
  arg_bookmark_field :: "string option"
  arg_project_timezone :: "string option"
  arg_days_interval :: "int option"
  arg_attribution_window :: "int option"

text \<open>The local variables of \<open>sync_endpoint\<close> that its loops read and assign.\<close>

record locals =
  last_datetime :: json
  now_datetime :: int
  days_interval :: int
  start_window :: int
  end_window :: int
  parent_id_field :: "string option"
  page :: nat
  offset :: int
  total_records :: json
  session_id :: json
  max_bookmark_value :: json
  endpoint_total :: int

definition limit :: int where
  "limit = 250"

section \<open>The window planner\<close>

text \<open>
  Lines 145-169: the first window and the step, as
  \<open>(start_window, end_window, days_interval)\<close>.
\<close>

definition first_window ::
  "env \<Rightarrow> endpoint_config \<Rightarrow> json \<Rightarrow> int \<Rightarrow> int option \<Rightarrow> int option
     \<Rightarrow> error + int \<times> int \<times> int" where
  "first_window e cfg ld now di_arg aw_arg =
     (if truthy_str (cfg_bookmark_query_field_from cfg)
         \<and> truthy_str (cfg_bookmark_query_field_to cfg) then
        (let di = (case di_arg of None \<Rightarrow> 30 | Some d \<Rightarrow> if d = 0 then 30 else d) in
         case strptime_to_utc e ld of
           Inl err \<Rightarrow> Inl err
         | Inr last_dttm \<Rightarrow>
             (case aw_arg of
                None \<Rightarrow> Inl TypeError
              | Some aw \<Rightarrow>
                  (let d0 = td_days (now - last_dttm);
                       delta_days = (if d0 \<le> aw then aw else if d0 \<ge> 365 then 365 else d0)
                   in case timedelta_days delta_days of
                        Inl err \<Rightarrow> Inl err
                      | Inr back \<Rightarrow>
                          (case dt_add now (- back) of
                             Inl err \<Rightarrow> Inl err
                           | Inr sw \<Rightarrow>
                               (case timedelta_days di of
                                  Inl err \<Rightarrow> Inl err
                                | Inr step \<Rightarrow>
                                    (case dt_add sw step of
                                       Inl err \<Rightarrow> Inl err
                                     | Inr ew \<Rightarrow>
                                         Inr (sw, if ew > now then now else ew, di)))))))
      else
        (case strptime_to_utc e ld of
           Inl err \<Rightarrow> Inl err
         | Inr sw \<Rightarrow>
             (let diff_sec = td_seconds (now - sw)
              in Inr (sw, now, - ((- diff_sec) div (3600 * 24))))))"

text \<open>Lines 342-347: the next window.\<close>

definition next_window :: "locals \<Rightarrow> error + locals" where
  "next_window l =
     (case timedelta_days (days_interval l) of
        Inl err \<Rightarrow> Inl err
      | Inr step \<Rightarrow>
          (case dt_add (end_window l) step of
             Inl err \<Rightarrow> Inl err
           | Inr next_end_window \<Rightarrow>
               Inr (l\<lparr>start_window := end_window l,
                      end_window := (if next_end_window > now_datetime l then now_datetime l
                                     else next_end_window)\<rparr>)))"

section \<open>Python on JSON values\<close>

definition num :: "json \<Rightarrow> int option" where
  "num j = (case j of JInt n \<Rightarrow> Some n | JBool b \<Rightarrow> Some (if b then 1 else 0) | _ \<Rightarrow> None)"

text \<open>\<open>for x in v\<close>: a dict gives its keys, a string its characters.\<close>

definition py_iter :: "json \<Rightarrow> error + json list" where
  "py_iter v =
     (case v of
        JList xs \<Rightarrow> Inr xs
      | JObj kvs \<Rightarrow> Inr (map (\<lambda>kv. JStr (fst kv)) kvs)
      | JStr s \<Rightarrow> Inr (map (\<lambda>c. JStr [c]) s)
      | _ \<Rightarrow> Inl TypeError)"

text \<open>\<open>key in data\<close>, for a key that is a string or \<open>None\<close>.\<close>

definition py_in :: "string option \<Rightarrow> json \<Rightarrow> error + bool" where
  "py_in k data =
     (case data of
        JObj kvs \<Rightarrow> Inr (case k of None \<Rightarrow> False | Some s \<Rightarrow> map_of kvs s \<noteq> None)
      | JList xs \<Rightarrow> Inr (List.member xs (case k of None \<Rightarrow> JNull | Some s \<Rightarrow> JStr s))
      | JStr t \<Rightarrow> (case k of None \<Rightarrow> Inl TypeError | Some s \<Rightarrow> Inr (sublist s t))
      | _ \<Rightarrow> Inl TypeError)"

text \<open>\<open>data[key]\<close>, for a key that is a string or \<open>None\<close>.\<close>

definition py_getitem :: "json \<Rightarrow> string option \<Rightarrow> error + json" where
  "py_getitem data k =
     (case data of
        JObj kvs \<Rightarrow>
          (case k of
             None \<Rightarrow> Inl KeyError
           | Some s \<Rightarrow> (case map_of kvs s of None \<Rightarrow> Inl KeyError | Some v \<Rightarrow> Inr v))
      | _ \<Rightarrow> Inl TypeError)"

text \<open>\<open>d.get(key, dflt)\<close> on a dict.\<close>

definition dict_get :: "dict \<Rightarrow> string \<Rightarrow> json \<Rightarrow> json" where
  "dict_get d k dflt = (case map_of d k of None \<Rightarrow> dflt | Some v \<Rightarrow> v)"

fun join :: "string \<Rightarrow> string list \<Rightarrow> string" where
  "join sep [] = []"
| "join sep [x] = x"
| "join sep (x # y # ys) = x @ sep @ join sep (y # ys)"

text \<open>\<open>s.replace(old, new)\<close>, for a pattern that is not empty.\<close>

function replace :: "string \<Rightarrow> string \<Rightarrow> string \<Rightarrow> string" where
  "replace old new s =
     (if s = [] \<or> old = [] then s
      else if prefix old s then new @ replace old new (drop (length old) s)
      else hd s # replace old new (tl s))"
  by pat_completeness auto
termination
  by (relation "measure (\<lambda>(old, new, s). length s)") auto

declare replace.simps [simp del]

section \<open>The pagination driver\<close>

text \<open>Lines 228-230: the query string, with the parent id in place of \<open>[parent_id]\<close>.\<close>

definition querystring :: "env \<Rightarrow> dict \<Rightarrow> json \<Rightarrow> string" where
  "querystring e ps parent_id =
     replace ''[parent_id]'' (py_str e parent_id)
       (join ''&'' (map (\<lambda>kv. fst kv @ ''='' @ py_str e (snd kv)) ps))"

text \<open>
  Lines 264-269: the loop over the items of the date dictionary. The assignment to
  \<open>val['date']\<close> raises \<open>TypeError\<close> on a value that is no dict.
\<close>

fun date_items :: "(string \<times> json) list \<Rightarrow> error + json list" where
  "date_items [] = Inr []"
| "date_items (kv # kvs) =
     (if fst kv \<noteq> ''$overall'' then
        (case snd kv of
           JObj val \<Rightarrow>
             (case date_items kvs of
                Inl err \<Rightarrow> Inl err
              | Inr results_list \<Rightarrow>
                  Inr (JObj (AList.update ''datetime'' (JStr (fst kv @ ''T00:00:00Z''))
                              (AList.update ''date'' (JStr (fst kv)) val)) # results_list))
         | _ \<Rightarrow> Inl TypeError)
      else date_items kvs)"

text \<open>Lines 261-271.\<close>

definition normalize_dates :: "endpoint_config \<Rightarrow> string option \<Rightarrow> json \<Rightarrow> error + json" where
  "normalize_dates cfg data_key data =
     (if cfg_date_dictionary cfg then
        (case py_in data_key data of
           Inl err \<Rightarrow> Inl err
         | Inr present \<Rightarrow>
             if present then
               (case py_getitem data data_key of
                  Inl err \<Rightarrow> Inl err
                | Inr (JObj kvs) \<Rightarrow>
                    (case date_items kvs of
                       Inl err \<Rightarrow> Inl err
                     | Inr results_list \<Rightarrow> Inr (JObj [(the data_key, JList results_list)]))
                | Inr other \<Rightarrow> Inl AttributeError)
             else Inr data)
      else Inr data)"

text \<open>Lines 275-279.\<close>

definition resolve_records ::
  "env \<Rightarrow> sync_args \<Rightarrow> string option \<Rightarrow> json \<Rightarrow> json \<Rightarrow> error + json" where
  "resolve_records e a data_key data parent_record =
     (if data_key = None \<or> data_key = Some ''.'' then
        transform_json e data (arg_stream_name a) (arg_project_timezone a) None
      else
        (case py_in data_key data of
           Inl err \<Rightarrow> Inl err
         | Inr present \<Rightarrow>
             if present then
               (case py_getitem data data_key of
                  Inl err \<Rightarrow> Inl err
                | Inr v \<Rightarrow>
                    transform_json e v (arg_stream_name a) (arg_project_timezone a)
                      (Some parent_record))
             else Inr (JList [])))"

text \<open>
  Lines 286-293. \<open>raise 'Missing Key'\<close> raises \<open>TypeError\<close>: a string is no exception.
\<close>

fun check_keys :: "string list \<Rightarrow> json \<Rightarrow> error + unit" where
  "check_keys [] record = Inr ()"
| "check_keys (key # keys) record =
     (case record of
        JObj d \<Rightarrow>
          (if \<not> truthy (dict_get d key JNull) then Inl TypeError
           else check_keys keys record)
      | _ \<Rightarrow> Inl AttributeError)"

fun check_records :: "string list option \<Rightarrow> json list \<Rightarrow> error + unit" where
  "check_records id_fields [] = Inr ()"
| "check_records id_fields (record # records) =
     (case id_fields of
        None \<Rightarrow> Inl TypeError
      | Some keys \<Rightarrow>
          (case check_keys keys record of
             Inl err \<Rightarrow> Inl err
           | Inr u \<Rightarrow> check_records id_fields records))"

definition data_key_of :: "endpoint_config \<Rightarrow> string option" where
  "data_key_of cfg = (case cfg_data_key cfg of None \<Rightarrow> Some ''results'' | Some k \<Rightarrow> k)"

text \<open>
  Lines 223-282: the request of one page and the records it yields, as the response
  (after the date-dictionary normalization) and \<open>transformed_data\<close>; \<open>None\<close> for a response
  that is empty.
\<close>

definition fetch_page ::
  "env \<Rightarrow> sync_args \<Rightarrow> json \<Rightarrow> json \<Rightarrow> locals \<Rightarrow> world
     \<Rightarrow> (error + (json \<times> json) option) \<times> world" where
  "fetch_page e a parent_record parent_id l w =
     (let cfg = arg_endpoint_config a;
          w1 = (if cfg_pagination cfg \<and> page l \<noteq> 0
                then w\<lparr>static_params :=
                        AList.update ''page'' (JInt (int (page l)))
                          (AList.update ''session_id'' (session_id l) (static_params w))\<rparr>
                else w);
          rq = \<lparr>r_method = cfg_api_method cfg, r_url = cfg_url cfg,
                r_path = Some (arg_path a),
                r_params = Some (querystring e (static_params w1) parent_id),
                r_endpoint = arg_stream_name a\<rparr>;
          w2 = w1\<lparr>reqs := reqs w1 @
                 [\<lparr>c_request = rq, c_page = Some (page l, offset l),
                   c_params = static_params w1\<rparr>]\<rparr>
      in case client e (reqs w1) rq of
           Inl err \<Rightarrow> (Inl err, w2)
         | Inr data0 \<Rightarrow>
             if \<not> truthy data0 then (Inr None, w2)
             else
               (case normalize_dates cfg (data_key_of cfg) data0 of
                  Inl err \<Rightarrow> (Inl err, w2)
                | Inr data \<Rightarrow>
                    (case resolve_records e a (data_key_of cfg) data parent_record of
                       Inl err \<Rightarrow> (Inl err, w2)
                     | Inr transformed_data \<Rightarrow> (Inr (Some (data, transformed_data)), w2))))"

text \<open>The page of records that line 286 starts to check, noted in the world.\<close>

definition seen :: "json list \<Rightarrow> world \<Rightarrow> world" where
  "seen records w = w\<lparr>pages := pages w @ [(length (out w), records)]\<rparr>"

text \<open>
  Lines 223-330: one turn of the page loop, up to the increments of lines 334-336.
  \<open>time_extracted\<close> is read from the clock right after the request.
\<close>

definition page_body ::
  "env \<Rightarrow> sync_args \<Rightarrow> json \<Rightarrow> json \<Rightarrow> locals \<Rightarrow> world \<Rightarrow> (error + locals) \<times> world" where
  "page_body e a parent_record parent_id l w =
     (case fetch_page e a parent_record parent_id l w of
        (Inl err, w2) \<Rightarrow> (Inl err, w2)
      | (Inr None, w2) \<Rightarrow> (Inr l, w2)
      | (Inr (Some fetched), w2) \<Rightarrow>
          (let data = fst fetched;
               transformed_data = snd fetched;
               time_extracted = utils_now e (reqs w2)
           in if \<not> truthy transformed_data then (Inr l, w2)
              else
                (case py_iter transformed_data of
                   Inl err \<Rightarrow> (Inl err, w2)
                 | Inr records \<Rightarrow>
                     (case check_records (cfg_key_properties (arg_endpoint_config a)) records of
                        Inl err \<Rightarrow> (Inl err, seen records w2)
                      | Inr u \<Rightarrow>
                          (case process_records e (arg_stream_name a) records
                                  time_extracted (arg_bookmark_field a)
                                  (max_bookmark_value l) (last_datetime l)
                                  (seen records w2) of
                             (Inl err, w3) \<Rightarrow> (Inl err, w3)
                           | (Inr res, w3) \<Rightarrow>
                               (let record_count = JInt (int (snd res));
                                    tot =
                                      (if page l = 0 then
                                         (case data of
                                            JObj d \<Rightarrow> dict_get d ''total'' record_count
                                          | _ \<Rightarrow> record_count)
                                       else total_records l);
                                    sess =
                                      (case data of
                                         JObj d \<Rightarrow> dict_get d ''session_id'' JNull
                                       | _ \<Rightarrow> session_id l)
                                in if cfg_pagination (arg_endpoint_config a) \<and> num tot = None
                                   then (Inl TypeError, w3)
                                   else (Inr (l\<lparr>total_records := tot,
                                                 session_id := sess,
                                                 max_bookmark_value := fst res\<rparr>),
                                         w3)))))))"

lemma page_body_frame:
  assumes "page_body e a pr pid l w = (Inr l', w')"
  shows "page l' = page l \<and> offset l' = offset l
         \<and> (page l \<noteq> 0 \<longrightarrow> total_records l' = total_records l)"
  using assms
  unfolding page_body_def Let_def
  by (auto split: sum.splits if_splits prod.splits option.splits)

text \<open>
  Lines 222-337: the page loop. The sum of line 336 raises \<open>TypeError\<close> on a total
  that is no number, so the test of line 222 always finds one.
\<close>

function page_loop ::
  "env \<Rightarrow> sync_args \<Rightarrow> json \<Rightarrow> json \<Rightarrow> locals \<Rightarrow> world \<Rightarrow> (error + locals) \<times> world" where
  "page_loop e a parent_record parent_id l w =
     (case num (total_records l) of
        None \<Rightarrow> (Inl TypeError, w)
      | Some tot \<Rightarrow>
          if offset l \<le> tot \<and> session_id l \<noteq> JNull then
            (case page_body e a parent_record parent_id l w of
               (Inl err, w') \<Rightarrow> (Inl err, w')
             | (Inr l', w') \<Rightarrow>
                 (case num (total_records l') of
                    None \<Rightarrow> (Inl TypeError, w')
                  | Some t \<Rightarrow>
                      page_loop e a parent_record parent_id
                        (l'\<lparr>offset := offset l' + limit, page := page l' + 1,
                            endpoint_total := endpoint_total l' + t\<rparr>) w'))
          else (Inr l, w))"
  by pat_completeness auto
termination
proof (relation "measures
    [\<lambda>(e, a, pr, pid, l, w). if page l = 0 then 1 else 0,
     \<lambda>(e, a, pr, pid, l, w). nat (the (num (total_records l)) + limit - offset l)]")
  show "wf (measures
    [\<lambda>(e, a, pr, pid, l, w). if page l = 0 then 1 else 0,
     \<lambda>(e :: env, a :: sync_args, pr :: json, pid :: json, l :: locals, w :: world).
        nat (the (num (total_records l)) + limit - offset l)])"
    by simp
next
  fix e a parent_record parent_id l w tot x l' w' t
  assume n: "num (total_records l) = Some tot"
    and c: "offset l \<le> tot \<and> session_id l \<noteq> JNull"
    and b: "(x, w') = page_body e a parent_record parent_id l w"
    and x: "x = Inr l'"
    and t: "num (total_records l') = Some t"
  from b x have "page_body e a parent_record parent_id l w = (Inr l', w')" by simp
  from page_body_frame[OF this] have
    f: "page l' = page l" "offset l' = offset l"
       "page l \<noteq> 0 \<longrightarrow> total_records l' = total_records l" by auto
  show "((e, a, parent_record, parent_id,
          l'\<lparr>offset := offset l' + limit, page := page l' + 1,
             endpoint_total := endpoint_total l' + t\<rparr>, w'),
         (e, a, parent_record, parent_id, l, w))
        \<in> measures
    [\<lambda>(e, a, pr, pid, l, w). if page l = 0 then 1 else 0,
     \<lambda>(e, a, pr, pid, l, w). nat (the (num (total_records l)) + limit - offset l)]"
    using f n c t by (cases "page l = 0") (auto simp: limit_def)
qed

declare page_loop.simps [simp del]

section \<open>The parent loop\<close>

text \<open>Lines 209-339: \<open>parent_record.get\<close> needs a dict.\<close>

fun parent_loop ::
  "env \<Rightarrow> sync_args \<Rightarrow> json list \<Rightarrow> locals \<Rightarrow> world \<Rightarrow> (error + locals) \<times> world" where
  "parent_loop e a [] l w = (Inr l, w)"
| "parent_loop e a (parent_record # rest) l w =
     (case parent_record of
        JObj d \<Rightarrow>
          (let parent_id =
                 (case parent_id_field l of None \<Rightarrow> JNull | Some f \<Rightarrow> dict_get d f JNull);
               l0 = l\<lparr>page := 0, offset := 0, total_records := JInt 0,
                      session_id := JStr ''initial''\<rparr>;
               w0 = (if cfg_pagination (arg_endpoint_config a)
                     then w\<lparr>static_params :=
                             AList.update ''page_size'' (JInt limit) (static_params w)\<rparr>
                     else w)
           in case page_loop e a parent_record parent_id l0 w0 of
                (Inl err, w') \<Rightarrow> (Inl err, w')
              | (Inr l', w') \<Rightarrow> parent_loop e a rest l' w')
      | _ \<Rightarrow> (Inl AttributeError, w))"

section \<open>The parent resolver\<close>

text \<open>
  Lines 193-207: the parent listing, or the single synthetic parent. The assignment of
  line 207 stays for the windows that follow.
\<close>

definition resolve_parents ::
  "env \<Rightarrow> sync_args \<Rightarrow> locals \<Rightarrow> world \<Rightarrow> (error + json \<times> locals) \<times> world" where
  "resolve_parents e a l w =
     (let cfg = arg_endpoint_config a in
      if truthy_str (cfg_parent_path cfg) \<and> truthy_str (parent_id_field l) then
        (let rq = \<lparr>r_method = Some ''GET'', r_url = cfg_url cfg,
                   r_path = cfg_parent_path cfg, r_params = None,
                   r_endpoint = ''parent_data''\<rparr>;
             w' = w\<lparr>reqs := reqs w @
                    [\<lparr>c_request = rq, c_page = None, c_params = static_params w\<rparr>]\<rparr>
         in case client e (reqs w) rq of
              Inl err \<Rightarrow> (Inl err, w')
            | Inr parent_data \<Rightarrow> (Inr (parent_data, l), w'))
      else
        (Inr (JList [JObj [(''id'', JStr ''none'')]], l\<lparr>parent_id_field := Some ''id''\<rparr>), w))"

section \<open>The window loop\<close>

text \<open>Lines 177-351: one turn of the window loop.\<close>

definition window_body ::
  "env \<Rightarrow> sync_args \<Rightarrow> (int \<Rightarrow> string) \<Rightarrow> locals \<Rightarrow> world \<Rightarrow> (error + locals) \<times> world" where
  "window_body e a tz l w =
     (let cfg = arg_endpoint_config a;
          w0 = w\<lparr>wins := wins w @ [(start_window l, end_window l)]\<rparr>;
          w1 = (if truthy_str (cfg_bookmark_query_field_from cfg)
                   \<and> truthy_str (cfg_bookmark_query_field_to cfg)
                then w0\<lparr>static_params :=
                         AList.update (the (cfg_bookmark_query_field_to cfg))
                           (JStr (tz (end_window l)))
                           (AList.update (the (cfg_bookmark_query_field_from cfg))
                              (JStr (tz (start_window l))) (static_params w0))\<rparr>
                else w0)
      in case resolve_parents e a l w1 of
           (Inl err, w2) \<Rightarrow> (Inl err, w2)
         | (Inr res, w2) \<Rightarrow>
             (case py_iter (fst res) of
                Inl err \<Rightarrow> (Inl err, w2)
              | Inr parents \<Rightarrow>
                  (case parent_loop e a parents (snd res) w2 of
                     (Inl err, w3) \<Rightarrow> (Inl err, w3)
                   | (Inr l3, w3) \<Rightarrow>
                       (case next_window l3 of
                          Inl err \<Rightarrow> (Inl err, w3)
                        | Inr l4 \<Rightarrow>
                            if truthy_str (arg_bookmark_field a) then
                              (case write_bookmark e (arg_stream_name a)
                                      (max_bookmark_value l4) w3 of
                                 (Inl err, w4) \<Rightarrow> (Inl err, w4)
                               | (Inr u, w4) \<Rightarrow> (Inr l4, w4))
                            else (Inr l4, w3)))))"

text \<open>
  Line 176: the loop runs while \<open>start_window < now_datetime\<close>. Nothing bounds the number
  of its turns, so its result is an option: \<open>None\<close> when it never ends.
\<close>

partial_function (option) window_loop ::
  "env \<Rightarrow> sync_args \<Rightarrow> (int \<Rightarrow> string) \<Rightarrow> locals \<Rightarrow> world
     \<Rightarrow> ((error + locals) \<times> world) option" where
  "window_loop e a tz l w =
     (if start_window l < now_datetime l then
        (case window_body e a tz l w of
           (Inl err, w') \<Rightarrow> Some (Inl err, w')
         | (Inr l', w') \<Rightarrow> window_loop e a tz l' w')
      else Some (Inr l, w))"

declare window_loop.simps [code]

section \<open>\<open>sync_endpoint\<close>\<close>

text \<open>
  The whole function: the result is the error raised or \<open>endpoint_total\<close>, with the
  world as the run leaves it.
\<close>

definition sync_endpoint ::
  "env \<Rightarrow> sync_args \<Rightarrow> world \<Rightarrow> ((error + int) \<times> world) option" where
  "sync_endpoint e a w =
     (let cfg = arg_endpoint_config a;
          w0 = w\<lparr>static_params := (case cfg_params cfg of None \<Rightarrow> [] | Some ps \<Rightarrow> ps)\<rparr>;
          ld = get_bookmark w0 (arg_stream_name a) (arg_start_date a)
      in case write_schema e (arg_stream_name a) w0 of
           (Inl err, w1) \<Rightarrow> Some (Inl err, w1)
         | (Inr u, w1) \<Rightarrow>
             (let now = utils_now e (reqs w1) in
              case tzone e of
                Inl err \<Rightarrow> Some (Inl err, w1)
              | Inr tz \<Rightarrow>
                  (case first_window e cfg ld now (arg_days_interval a)
                          (arg_attribution_window a) of
                     Inl err \<Rightarrow> Some (Inl err, w1)
                   | Inr plan \<Rightarrow>
                       (case window_loop e a tz
                               \<lparr>last_datetime = ld, now_datetime = now,
                                days_interval = snd (snd plan),
                                start_window = fst plan, end_window = fst (snd plan),
                                parent_id_field = cfg_parent_id_field cfg,
                                page = 0, offset = 0, total_records = JInt 0,
                                session_id = JStr ''initial'', max_bookmark_value = ld,
                                endpoint_total = 0\<rparr> w1 of
                          None \<Rightarrow> None
                        | Some (Inl err, w2) \<Rightarrow> Some (Inl err, w2)
                        | Some (Inr l, w2) \<Rightarrow> Some (Inr (endpoint_total l), w2)))))"

section \<open>The properties, in the words of the specification\<close>

text \<open>
  The instant a value denotes as a date-time, if it denotes one, and what is asked of
  singer's rendering: that of two instants read from strings, the later one has the
  later rendering in string order.
\<close>

definition instant :: "env \<Rightarrow> json \<Rightarrow> int option" where
  "instant e v = (case v of JStr s \<Rightarrow> (if s = [] then None else strptime e s) | _ \<Rightarrow> None)"



text \<open>
  A record lacks an identifying field when, for one of the configured keys, it has no
  value or a value that Python takes for false (\<open>None\<close>, the empty string, zero).
\<close>

definition lacks_id :: "string list \<Rightarrow> json \<Rightarrow> bool" where
  "lacks_id keys r =
     (case r of
        JObj d \<Rightarrow> list_ex (\<lambda>key. \<not> truthy (dict_get d key JNull)) keys
      | _ \<Rightarrow> keys \<noteq> [])"

text \<open>\<open>clamp(x, lo, hi)\<close>: \<open>x\<close>, raised to \<open>lo\<close> and lowered to \<open>hi\<close>.\<close>

definition clamp :: "int \<Rightarrow> int \<Rightarrow> int \<Rightarrow> int" where
  "clamp x lo hi = max lo (min x hi)"

text \<open>The number of microseconds in \<open>n\<close> days.\<close>

definition days :: "int \<Rightarrow> int" where
  "days n = n * day_us"

text \<open>The keys of a parameter dictionary.\<close>

definition dict_keys :: "dict \<Rightarrow> string set" where
  "dict_keys d = fst ` set d"

text \<open>
  The calls \<open>cs\<close>, made while the parameter dictionary went from \<open>p\<close> to \<open>q\<close>, never lose a
  key: every call has the keys of \<open>p\<close> and of the calls before it, and \<open>q\<close> has them all.
\<close>

definition params_grow :: "dict \<Rightarrow> call list \<Rightarrow> dict \<Rightarrow> bool" where
  "params_grow p cs q =
     (dict_keys p \<subseteq> dict_keys q
      \<and> list_all (\<lambda>c. dict_keys p \<subseteq> dict_keys (c_params c) \<and> dict_keys (c_params c) \<subseteq> dict_keys q) cs
      \<and> sorted_wrt (\<lambda>c d. dict_keys (c_params c) \<subseteq> dict_keys (c_params d)) cs)"

text \<open>The window variables that only the window loop assigns.\<close>

definition same_plan :: "locals \<Rightarrow> locals \<Rightarrow> bool" where
  "same_plan l l' =
     (now_datetime l' = now_datetime l \<and> days_interval l' = days_interval l
      \<and> start_window l' = start_window l \<and> end_window l' = end_window l)"

text \<open>
  A page of records is bad when one of them lacks a configured identifying field. The
  pages noted between \<open>w\<close> and \<open>w'\<close> are in order when, for each bad page among them, the
  part of the run that noted it has failed and nothing was written after the page was
  noted.
\<close>

definition bad_page :: "sync_args \<Rightarrow> json list \<Rightarrow> bool" where
  "bad_page a records =
     (case cfg_key_properties (arg_endpoint_config a) of
        None \<Rightarrow> False
      | Some keys \<Rightarrow> list_ex (lacks_id keys) records)"

definition pages_ok :: "sync_args \<Rightarrow> world \<Rightarrow> bool \<Rightarrow> world \<Rightarrow> bool" where
  "pages_ok a w failed w' =
     (\<exists>ps. pages w' = pages w @ ps
        \<and> list_all (\<lambda>p. bad_page a (snd p) \<longrightarrow> failed \<and> length (out w') = fst p) ps)"

text \<open>
  The windows \<open>ws\<close> tile \<open>[s, t)\<close>: the first starts at \<open>s\<close>, each is not empty and starts
  where the one before ends, and the last ends at \<open>t\<close>. \<open>chained\<close> is the same for a run
  that has not reached \<open>t\<close>.
\<close>

fun tiles :: "int \<Rightarrow> (int \<times> int) list \<Rightarrow> int \<Rightarrow> bool" where
  "tiles s [] t = (s = t)"
| "tiles s (wd # ws) t = (fst wd = s \<and> s < snd wd \<and> snd wd \<le> t \<and> tiles (snd wd) ws t)"

fun chained :: "int \<Rightarrow> (int \<times> int) list \<Rightarrow> int \<Rightarrow> bool" where
  "chained s [] t = (s \<le> t)"
| "chained s (wd # ws) t = (fst wd = s \<and> s < snd wd \<and> snd wd \<le> t \<and> chained (snd wd) ws t)"

(*DEFS*)

section \<open>Collaborators for the examples\<close>

text \<open>
  A transformer that returns a record as it is (its schema gives no field a format), a
  sink that accepts every message, a counter that never logs before the end, a
  \<open>transform_json\<close> that returns its input, a stopped clock, a time zone that renders
  an instant as a fixed string, and a parser and a rendering that know four strings.
\<close>

definition stub_transform :: "string \<Rightarrow> json \<Rightarrow> error + dict" where
  "stub_transform sn r = (case r of JObj kvs \<Rightarrow> Inr kvs | _ \<Rightarrow> Inl (Failure ''schema''))"

definition stub_str :: "json \<Rightarrow> string" where
  "stub_str j = (case j of JStr s \<Rightarrow> s | JInt n \<Rightarrow> (if n = 250 then ''250'' else ''n'') | _ \<Rightarrow> ''v'')"

definition stub_strptime :: "string \<Rightarrow> int option" where
  "stub_strptime s =
     (if s = ''1970-01-01T00:00:00Z'' \<or> s = ''1970-01-01T00:00:00.000000Z'' then Some 0
      else if s = ''1970-01-01T00:00:00.000005Z'' then Some 5
      else if s = ''1970-01-01T00:00:00.000009Z'' then Some 9
      else None)"

definition stub_strftime :: "int \<Rightarrow> string" where
  "stub_strftime t =
     (if t = 5 then ''1970-01-01T00:00:00.000005Z''
      else if t = 9 then ''1970-01-01T00:00:00.000009Z''
      else ''1970-01-01T00:00:00.000000Z'')"

definition stub_env :: "int \<Rightarrow> (call list \<Rightarrow> request \<Rightarrow> error + json) \<Rightarrow> env" where
  "stub_env now c =
     \<lparr>sink_ok = (\<lambda>m. True), ready_to_log = (\<lambda>ms. False), transform = stub_transform,
      transform_json = (\<lambda>d sn tz pr. Inr d), client = c,
      utils_now = (\<lambda>h. now), tzone = Inr (\<lambda>t. ''date''),
      py_str = stub_str, strptime = stub_strptime, strftime = stub_strftime\<rparr>"

definition world0 :: world where
  "world0 = \<lparr>out = [], reqs = [], wins = [], pages = [], static_params = [], bookmarks = None\<rparr>"


text \<open>The record of one date key after normalization.\<close>

definition with_date :: "string \<times> json \<Rightarrow> json" where
  "with_date kv =
     (case snd kv of
        JObj val \<Rightarrow> JObj (AList.update ''datetime'' (JStr (fst kv @ ''T00:00:00Z''))
                          (AList.update ''date'' (JStr (fst kv)) val))
      | v \<Rightarrow> v)"

definition date_cfg :: endpoint_config where
  "date_cfg =
     \<lparr>cfg_url = None, cfg_data_key = None, cfg_api_method = None,
      cfg_parent_path = None, cfg_parent_id_field = None, cfg_params = None,
      cfg_bookmark_query_field_from = None, cfg_bookmark_query_field_to = None,
      cfg_key_properties = None, cfg_date_dictionary = True, cfg_pagination = False\<rparr>"

definition overall_response :: json where
  "overall_response =
     JObj [(''results'',
        JObj [(''2024-01-01'', JObj [(''count'', JInt 3)]),
              (''$overall'', JObj [(''count'', JInt 3)])])]"

text \<open>A flat stream, its arguments and the variables at the start of a page loop.\<close>

definition plain_cfg :: endpoint_config where
  "plain_cfg =
     \<lparr>cfg_url = Some ''https://host/api'', cfg_data_key = None, cfg_api_method = Some ''GET'',
      cfg_parent_path = None, cfg_parent_id_field = None, cfg_params = None,
      cfg_bookmark_query_field_from = None, cfg_bookmark_query_field_to = None,
      cfg_key_properties = Some [''id''], cfg_date_dictionary = False, cfg_pagination = False\<rparr>"

definition plain_args :: "endpoint_config \<Rightarrow> sync_args" where
  "plain_args cfg =
     \<lparr>arg_start_date = JStr ''1970-01-01T00:00:00Z'', arg_stream_name = ''stream'', arg_path = ''path'',
      arg_endpoint_config = cfg, arg_bookmark_field = None,
      arg_project_timezone = Some ''UTC'', arg_days_interval = Some 30,
      arg_attribution_window = Some 5\<rparr>"

definition locals0 :: locals where
  "locals0 =
     \<lparr>last_datetime = JStr ''1970-01-01T00:00:00Z'', now_datetime = 100, days_interval = 30,
      start_window = 0, end_window = 100, parent_id_field = Some ''id'',
      page = 0, offset = 0, total_records = JInt 0, session_id = JStr ''initial'',
      max_bookmark_value = JStr ''1970-01-01T00:00:00Z'', endpoint_total = 0\<rparr>"

definition missing_id_client :: "call list \<Rightarrow> request \<Rightarrow> error + json" where
  "missing_id_client h r =
     Inr (JObj [(''results'', JList [JObj [(''id'', JInt 1)], JObj [(''name'', JStr ''x'')]])])"

text \<open>A stream with a cursor-range query.\<close>

definition range_cfg :: endpoint_config where
  "range_cfg =
     \<lparr>cfg_url = Some ''https://host/api'', cfg_data_key = None, cfg_api_method = Some ''GET'',
      cfg_parent_path = None, cfg_parent_id_field = None, cfg_params = None,
      cfg_bookmark_query_field_from = Some ''from_date'',
      cfg_bookmark_query_field_to = Some ''to_date'',
      cfg_key_properties = Some [''id''], cfg_date_dictionary = False, cfg_pagination = False\<rparr>"

text \<open>An environment whose parser reads every string as the instant \<open>cp\<close>.\<close>

definition parse_env :: "int \<Rightarrow> env" where
  "parse_env cp = (stub_env 0 (\<lambda>h r. Inr JNull))\<lparr>strptime := (\<lambda>s. Some cp)\<rparr>"

(*STUBS*)

section \<open>The record processor: the cutoff\<close>


lemma emit_Inl: "emit e m w = (Inl err, w') \<Longrightarrow> w' = w"
  by (auto simp: emit_def split: if_splits)










section \<open>The record processor: the running maximum\<close>

text \<open>
  C5. Line 89 compares the field of the record as it stands with the canonical rendering
  of the maximum, where line 96 renders both sides: given the maximum
  \<open>1970-01-01T00:00:00.000005Z\<close> and a record whose cursor the transformer left as
  \<open>1970-01-01T00:00:00Z\<close>, five microseconds earlier and after it in string order, the
  record processor writes the record and returns its cursor as the new maximum.
\<close>

theorem process_records_max_drops:
  "process_records (stub_env 0 (\<lambda>h r. Inr JNull)) ''export''
     [JObj [(''time'', JStr ''1970-01-01T00:00:00Z'')]] 7 (Some ''time'')
     (JStr ''1970-01-01T00:00:00.000005Z'') (JStr ''1970-01-01T00:00:00Z'') world0
   = (Inr (JStr ''1970-01-01T00:00:00Z'', 1),
      world0\<lparr>out := [RECORD ''export'' [(''time'', JStr ''1970-01-01T00:00:00Z'')] 7]\<rparr>)
   \<and> instant (stub_env 0 (\<lambda>h r. Inr JNull)) (JStr ''1970-01-01T00:00:00.000005Z'') = Some 5
   \<and> instant (stub_env 0 (\<lambda>h r. Inr JNull)) (JStr ''1970-01-01T00:00:00Z'') = Some 0"
  by (simp add: process_records_def process_record_def raise_max_def tget_def
        transform_datetime_def write_record_def emit_def increment_def stub_env_def
        stub_transform_def stub_strptime_def stub_strftime_def truthy_str_def world0_def
        instant_def)

section \<open>Date-dictionary normalization\<close>

lemma date_items_dicts:
  "\<forall>kv \<in> set kvs. fst kv \<noteq> ''$overall'' \<longrightarrow> (\<exists>d. snd kv = JObj d) \<Longrightarrow>
   date_items kvs = Inr (map with_date (filter (\<lambda>kv. fst kv \<noteq> ''$overall'') kvs))"
  by (induction kvs) (auto simp: with_date_def)

lemma with_date_fields:
  assumes "snd kv = JObj d0"
  shows "\<exists>d. with_date kv = JObj d \<and> map_of d ''date'' = Some (JStr (fst kv))
           \<and> map_of d ''datetime'' = Some (JStr (fst kv @ ''T00:00:00Z''))
           \<and> (\<forall>f. f \<noteq> ''date'' \<and> f \<noteq> ''datetime'' \<longrightarrow> map_of d f = map_of d0 f)"
  using assms by (simp add: with_date_def update_conv')

text \<open>
  C7. For a date-dictionary stream and a response whose data key holds a dictionary of
  records keyed by date, normalization returns, under the data key, one record for each
  key other than \<open>$overall\<close>, in order: the record of that key with \<open>date\<close> set to the
  key and \<open>datetime\<close> set to the key followed by \<open>T00:00:00Z\<close>, its other fields as they
  were.
\<close>

theorem normalize_dates_flatten:
  assumes "cfg_date_dictionary cfg" and "map_of body k = Some (JObj kvs)"
    and "\<forall>kv \<in> set kvs. fst kv \<noteq> ''$overall'' \<longrightarrow> (\<exists>d. snd kv = JObj d)"
  shows "\<exists>rs. normalize_dates cfg (Some k) (JObj body) = Inr (JObj [(k, JList rs)])
     \<and> length rs = length (filter (\<lambda>kv. fst kv \<noteq> ''$overall'') kvs)
     \<and> (\<forall>i < length rs.
          \<exists>d d0. rs ! i = JObj d
            \<and> snd (filter (\<lambda>kv. fst kv \<noteq> ''$overall'') kvs ! i) = JObj d0
            \<and> map_of d ''date'' = Some (JStr (fst (filter (\<lambda>kv. fst kv \<noteq> ''$overall'') kvs ! i)))
            \<and> map_of d ''datetime'' =
                Some (JStr (fst (filter (\<lambda>kv. fst kv \<noteq> ''$overall'') kvs ! i) @ ''T00:00:00Z''))
            \<and> (\<forall>f. f \<noteq> ''date'' \<and> f \<noteq> ''datetime'' \<longrightarrow> map_of d f = map_of d0 f))"
proof -
  let ?ks = "filter (\<lambda>kv. fst kv \<noteq> ''$overall'') kvs"
  let ?rs = "map with_date ?ks"
  have n: "normalize_dates cfg (Some k) (JObj body) = Inr (JObj [(k, JList ?rs)])"
    using assms(1,2) date_items_dicts[OF assms(3)]
    by (simp add: normalize_dates_def py_in_def py_getitem_def)
  have f: "\<exists>d d0. ?rs ! i = JObj d \<and> snd (?ks ! i) = JObj d0
            \<and> map_of d ''date'' = Some (JStr (fst (?ks ! i)))
            \<and> map_of d ''datetime'' = Some (JStr (fst (?ks ! i) @ ''T00:00:00Z''))
            \<and> (\<forall>f. f \<noteq> ''date'' \<and> f \<noteq> ''datetime'' \<longrightarrow> map_of d f = map_of d0 f)"
    if "i < length ?rs" for i
  proof -
    from that have i: "i < length ?ks" by simp
    then have "?ks ! i \<in> set ?ks" by (rule nth_mem)
    then have "?ks ! i \<in> set kvs" and "fst (?ks ! i) \<noteq> ''$overall''" by auto
    with assms(3) obtain d0 where d0: "snd (?ks ! i) = JObj d0" by blast
    from with_date_fields[OF d0] i d0 show ?thesis by auto
  qed
  show ?thesis
    by (rule exI[of _ ?rs]) (use n f in auto)
qed

theorem normalize_dates_flatten_witness:
  "(\<exists>rs. normalize_dates date_cfg (Some ''results'') overall_response
           = Inr (JObj [(''results'', JList rs)]) \<and> length rs = 1)
   \<and> normalize_dates date_cfg (Some ''results'') overall_response
     = Inr (JObj [(''results'',
          JList [JObj [(''count'', JInt 3), (''date'', JStr ''2024-01-01''),
                       (''datetime'', JStr ''2024-01-01T00:00:00Z'')]])])"
proof -
  let ?top = "[(''results'',
        JObj [(''2024-01-01'', JObj [(''count'', JInt 3)]),
              (''$overall'', JObj [(''count'', JInt 3)])])]"
  let ?kvs = "[(''2024-01-01'', JObj [(''count'', JInt 3)]),
              (''$overall'', JObj [(''count'', JInt 3)])]"
  have a: "cfg_date_dictionary date_cfg" by (simp add: date_cfg_def)
  have b: "map_of ?top ''results'' = Some (JObj ?kvs)" by simp
  have c: "\<forall>kv \<in> set ?kvs. fst kv \<noteq> ''$overall'' \<longrightarrow> (\<exists>d. snd kv = JObj d)" by simp
  from normalize_dates_flatten[OF a b c] obtain rs where
    r: "normalize_dates date_cfg (Some ''results'') (JObj ?top)
          = Inr (JObj [(''results'', JList rs)])"
    and len: "length rs = length (filter (\<lambda>kv. fst kv \<noteq> ''$overall'') ?kvs)"
    by blast
  from len have "length rs = 1" by simp
  with r have 1: "\<exists>rs. normalize_dates date_cfg (Some ''results'') overall_response
           = Inr (JObj [(''results'', JList rs)]) \<and> length rs = 1"
    unfolding overall_response_def by blast
  have 2: "normalize_dates date_cfg (Some ''results'') overall_response
      = Inr (JObj [(''results'',
        JList [JObj [(''count'', JInt 3), (''date'', JStr ''2024-01-01''),
                     (''datetime'', JStr ''2024-01-01T00:00:00Z'')]])])"
    by (simp add: normalize_dates_def py_in_def py_getitem_def overall_response_def date_cfg_def)
  from 1 2 show ?thesis by (rule conjI)
qed

section \<open>The first window\<close>

lemma timedelta_days_Inr: "timedelta_days n = Inr d \<Longrightarrow> d = n * day_us"
  by (auto simp: timedelta_days_def split: if_splits)

lemma dt_add_Inr: "dt_add t d = Inr r \<Longrightarrow> r = t + d"
  by (auto simp: dt_add_def split: if_splits)

lemma first_window_range:
  assumes "truthy_str (cfg_bookmark_query_field_from cfg)"
    and "truthy_str (cfg_bookmark_query_field_to cfg)"
    and "strptime_to_utc ev ld = Inr cp"
    and "first_window ev cfg ld now di (Some aw) = Inr (s, e, d)"
  shows "s = now - (if td_days (now - cp) \<le> aw then aw
                    else if td_days (now - cp) \<ge> 365 then 365 else td_days (now - cp)) * day_us
         \<and> d = (case di of None \<Rightarrow> 30 | Some x \<Rightarrow> if x = 0 then 30 else x)
         \<and> e = (if s + d * day_us > now then now else s + d * day_us)"
  using assms
  unfolding first_window_def Let_def
  by (auto split: sum.splits if_splits dest!: timedelta_days_Inr dt_add_Inr)

lemma int_div_less_iff:
  fixes x c k :: int
  assumes "0 < c"
  shows "x div c < k \<longleftrightarrow> x < k * c"
proof -
  have "(x + (- k) * c) div c = - k + x div c"
    using assms div_mult_self3[where b = c and c = "- k" and a = x] by (simp add: add.commute)
  then have "((x - k * c) div c < 0) = (x div c < k)" by simp
  with pos_imp_zdiv_neg_iff[OF assms, of "x - k * c"] show ?thesis by simp
qed

lemma td_days_less: "td_days x < k \<longleftrightarrow> x < k * day_us"
  unfolding td_days_def by (rule int_div_less_iff) (simp add: day_us_def)

text \<open>
  C3 (amended). For a stream with a cursor-range query and an attribution window of at
  most 365 days, a first window that is planned starts exactly
  \<open>clamp(now - checkpoint in whole days, attribution_window, 365)\<close> days before now: at
  \<open>now - attribution_window\<close> days when the checkpoint is less than the attribution window
  back, at \<open>now - 365\<close> days when it is more than 365 days back.
\<close>

theorem first_window_start:
  assumes "truthy_str (cfg_bookmark_query_field_from cfg)"
    and "truthy_str (cfg_bookmark_query_field_to cfg)"
    and "strptime_to_utc ev ld = Inr cp"
    and "first_window ev cfg ld now di (Some aw) = Inr (s, e, d)"
    and "aw \<le> 365"
  shows "s = now - days (clamp (td_days (now - cp)) aw 365)
         \<and> (now - cp < days aw \<longrightarrow> s = now - days aw)
         \<and> (now - cp > days 365 \<longrightarrow> s = now - days 365)"
proof -
  let ?d0 = "td_days (now - cp)"
  from first_window_range[OF assms(1,2,3,4)] have
    s: "s = now - (if ?d0 \<le> aw then aw else if ?d0 \<ge> 365 then 365 else ?d0) * day_us"
    by simp
  have c: "(if ?d0 \<le> aw then aw else if ?d0 \<ge> 365 then 365 else ?d0) = clamp ?d0 aw 365"
    using assms(5) by (auto simp: clamp_def)
  have a: "now - cp < days aw \<Longrightarrow> ?d0 \<le> aw"
    using td_days_less[of "now - cp" aw] by (simp add: days_def)
  have "now - cp > days 365 \<Longrightarrow> \<not> ?d0 < 365"
    using td_days_less[of "now - cp" 365] by (simp add: days_def)
  then have b: "now - cp > days 365 \<Longrightarrow> ?d0 \<ge> 365" by simp
  let ?k = "(if ?d0 \<le> aw then aw else if ?d0 \<ge> 365 then 365 else ?d0)"
  have 1: "s = now - days (clamp ?d0 aw 365)" using s c by (simp add: days_def)
  have 2: "now - cp < days aw \<longrightarrow> s = now - days aw"
  proof
    assume "now - cp < days aw"
    then have "?d0 \<le> aw" by (rule a)
    then have "?k = aw" by simp
    with s show "s = now - days aw" by (simp add: days_def)
  qed
  have 3: "now - cp > days 365 \<longrightarrow> s = now - days 365"
  proof
    assume "now - cp > days 365"
    then have "?d0 \<ge> 365" by (rule b)
    with assms(5) have "?k = 365" by auto
    with s show "s = now - days 365" by (simp add: days_def)
  qed
  from 1 2 3 show ?thesis by blast
qed


theorem first_window_start_witness:
  "first_window (parse_env (- days 2)) range_cfg (JStr ''checkpoint'') 0 (Some 30) (Some 5)
     = Inr (- days 5, 0, 30)
   \<and> strptime_to_utc (parse_env (- days 2)) (JStr ''checkpoint'') = Inr (- days 2)
   \<and> (5 :: int) \<le> 365
   \<and> - days 5 = 0 - days (clamp (td_days (0 - (- days 2))) 5 365)
   \<and> 0 - (- days 2) < days 5"
proof -
  have f: "truthy_str (cfg_bookmark_query_field_from range_cfg)"
    and t: "truthy_str (cfg_bookmark_query_field_to range_cfg)"
    by (simp_all add: range_cfg_def truthy_str_def)
  have p: "strptime_to_utc (parse_env (- days 2)) (JStr ''checkpoint'') = Inr (- days 2)"
    by (simp add: strptime_to_utc_def parse_env_def)
  have h: "first_window (parse_env (- days 2)) range_cfg (JStr ''checkpoint'') 0 (Some 30) (Some 5)
      = Inr (- days 5, 0, 30)"
    by (simp add: first_window_def range_cfg_def truthy_str_def strptime_to_utc_def
          parse_env_def td_days_def timedelta_days_def dt_add_def days_def day_us_def
          MINDT_def MAXDT_def)
  have a: "(5 :: int) \<le> 365" by simp
  from first_window_start[OF f t p h a] show ?thesis
    using h p by (simp add: days_def day_us_def)
qed

text \<open>
  With an attribution window of 400 days the first window starts 400 days back for a
  checkpoint 380 days back, and 365 days back for a checkpoint 500 days back.
\<close>

theorem first_window_start_counterexample:
  "first_window (parse_env (- days 380)) range_cfg (JStr ''checkpoint'') 0 (Some 30) (Some 400)
     = Inr (- days 400, - days 370, 30)
   \<and> 0 - (- days 380) > days 365
   \<and> - days 400 \<noteq> 0 - days 365
   \<and> first_window (parse_env (- days 500)) range_cfg (JStr ''checkpoint'') 0 (Some 30) (Some 400)
     = Inr (- days 365, - days 335, 30)
   \<and> - days 365 \<noteq> 0 - days (clamp (td_days (0 - (- days 500))) 400 365)"
  by (simp add: first_window_def range_cfg_def truthy_str_def strptime_to_utc_def
        parse_env_def td_days_def timedelta_days_def dt_add_def days_def day_us_def
        MINDT_def MAXDT_def clamp_def)

text \<open>
  C8. Without a cursor-range query the first window is \<open>[checkpoint, now)\<close>, and the step
  is the seconds part of the elapsed time rounded up to days, which is 0 or 1: for a
  checkpoint exactly two days back it is 0, for two days and one hour it is 1.
\<close>

lemma first_window_plain:
  assumes "\<not> (truthy_str (cfg_bookmark_query_field_from cfg)
              \<and> truthy_str (cfg_bookmark_query_field_to cfg))"
    and "strptime_to_utc ev ld = Inr cp"
  shows "first_window ev cfg ld now di aw
     = Inr (cp, now, if td_seconds (now - cp) = 0 then 0 else 1)"
proof -
  let ?x = "td_seconds (now - cp)"
  have "0 \<le> ?x" and "?x < 86400"
    by (simp_all add: td_seconds_def day_us_def pos_imp_zdiv_nonneg_iff int_div_less_iff)
  then have "- ((- ?x) div (3600 * 24)) = (if ?x = 0 then 0 else 1)"
    by auto
  then show ?thesis
    unfolding first_window_def if_not_P[OF assms(1)]
    by (simp add: assms(2) Let_def)
qed

theorem first_window_plain_step:
  "first_window (stub_env 0 (\<lambda>h r. Inr JNull)) plain_cfg (JStr ''1970-01-01T00:00:00Z'')
     (days 2) None None = Inr (0, days 2, 0)
   \<and> first_window (stub_env 0 (\<lambda>h r. Inr JNull)) plain_cfg (JStr ''1970-01-01T00:00:00Z'')
     (days 2 + 3600000000) None None = Inr (0, days 2 + 3600000000, 1)"
  by (simp add: first_window_def plain_cfg_def truthy_str_def strptime_to_utc_def
        stub_env_def stub_strptime_def td_seconds_def days_def day_us_def)

section \<open>What each part of the run changes\<close>

lemma dict_keys_update: "dict_keys (AList.update k v d) = insert k (dict_keys d)"
  by (simp add: dict_keys_def dom_update)

lemma params_grow_refl: "params_grow p [] p"
  by (simp add: params_grow_def)

lemma params_grow_trans:
  assumes "params_grow p cs q" and "params_grow q ds r"
  shows "params_grow p (cs @ ds) r"
proof -
  let ?P = "\<lambda>c d. dict_keys (c_params c) \<subseteq> dict_keys (c_params d)"
  from assms have pq: "dict_keys p \<subseteq> dict_keys q" and qr: "dict_keys q \<subseteq> dict_keys r"
    and cs: "\<forall>c \<in> set cs. dict_keys p \<subseteq> dict_keys (c_params c) \<and> dict_keys (c_params c) \<subseteq> dict_keys q"
    and ds: "\<forall>c \<in> set ds. dict_keys q \<subseteq> dict_keys (c_params c) \<and> dict_keys (c_params c) \<subseteq> dict_keys r"
    and s1: "sorted_wrt ?P cs" and s2: "sorted_wrt ?P ds"
    by (simp_all add: params_grow_def list_all_iff)
  have a: "dict_keys p \<subseteq> dict_keys r" using pq qr by (rule subset_trans)
  have b1: "dict_keys p \<subseteq> dict_keys (c_params c) \<and> dict_keys (c_params c) \<subseteq> dict_keys r" if "c \<in> set cs" for c
    using cs qr that by (meson subset_trans)
  have b2: "dict_keys p \<subseteq> dict_keys (c_params c) \<and> dict_keys (c_params c) \<subseteq> dict_keys r" if "c \<in> set ds" for c
    using ds pq that by (meson subset_trans)
  have c: "dict_keys (c_params c) \<subseteq> dict_keys (c_params d)" if "c \<in> set cs" and "d \<in> set ds" for c d
    using cs ds that by (meson subset_trans)
  from b1 b2 have b: "list_all (\<lambda>c. dict_keys p \<subseteq> dict_keys (c_params c) \<and> dict_keys (c_params c) \<subseteq> dict_keys r) (cs @ ds)"
    unfolding list_all_iff by auto
  from s1 s2 c have "sorted_wrt ?P (cs @ ds)"
    unfolding sorted_wrt_append by simp
  with a b show ?thesis by (simp add: params_grow_def)
qed

lemma params_grow_single: "dict_keys p \<subseteq> dict_keys q \<Longrightarrow> c_params c = q \<Longrightarrow> params_grow p [c] q"
  by (simp add: params_grow_def)

lemma params_grow_keys: "params_grow p cs q \<Longrightarrow> dict_keys p \<subseteq> dict_keys q"
  by (simp add: params_grow_def)

lemma same_plan_refl: "same_plan l l"
  by (simp add: same_plan_def)

lemma same_plan_trans: "same_plan l l' \<Longrightarrow> same_plan l' l'' \<Longrightarrow> same_plan l l''"
  by (simp add: same_plan_def)

lemma pages_ok_same: "pages w' = pages w \<Longrightarrow> pages_ok a w b w'"
  by (simp add: pages_ok_def)

lemma pages_ok_weaken: "pages_ok a w False w' \<Longrightarrow> pages_ok a w b w'"
  unfolding pages_ok_def list_all_iff by blast

lemma pages_ok_trans:
  assumes "pages_ok a w False w1" and "pages_ok a w1 b w'"
  shows "pages_ok a w b w'"
proof -
  from assms(1) obtain ps where
    p: "pages w1 = pages w @ ps" and np: "\<forall>p \<in> set ps. \<not> bad_page a (snd p)"
    unfolding pages_ok_def list_all_iff by blast
  from assms(2) obtain qs where
    q: "pages w' = pages w1 @ qs" and
    nq: "\<forall>p \<in> set qs. bad_page a (snd p) \<longrightarrow> b \<and> length (out w') = fst p"
    unfolding pages_ok_def list_all_iff by blast
  have "pages w' = pages w @ (ps @ qs)" using p q by simp
  moreover have "\<forall>p \<in> set (ps @ qs). bad_page a (snd p) \<longrightarrow> b \<and> length (out w') = fst p"
    using np nq by auto
  ultimately show ?thesis unfolding pages_ok_def list_all_iff by blast
qed

lemma emit_frame:
  "emit e m w = (r, w') \<Longrightarrow>
   reqs w' = reqs w \<and> wins w' = wins w \<and> static_params w' = static_params w
   \<and> pages w' = pages w"
  by (auto simp: emit_def split: if_splits)

lemma process_record_frame:
  assumes "process_record e sn te bf ld acc r w = (res, w')"
  shows "reqs w' = reqs w \<and> wins w' = wins w \<and> static_params w' = static_params w
     \<and> pages w' = pages w"
proof -
  have wr: "write_record e sn tr te w = (x, w1) \<Longrightarrow>
      reqs w1 = reqs w \<and> wins w1 = wins w \<and> static_params w1 = static_params w
      \<and> pages w1 = pages w" for tr x w1
    unfolding write_record_def by (rule emit_frame)
  show ?thesis
  proof (cases "transform e sn r")
    case (Inl err)
    with assms show ?thesis by (simp add: process_record_def)
  next
    case (Inr tr)
    note t = this
    show ?thesis
    proof (cases "raise_max e bf (fst acc) tr")
      case (Inl err)
      with assms t show ?thesis by (simp add: process_record_def)
    next
      case (Inr m)
      obtain x w1 where W: "write_record e sn tr te w = (x, w1)" by fastforce
      from wr[OF W] have f1: "reqs w1 = reqs w \<and> wins w1 = wins w
          \<and> static_params w1 = static_params w \<and> pages w1 = pages w" .
      from assms t Inr W have "w' = w \<or> w' = w1"
        by (auto simp: process_record_def split: sum.splits if_splits)
      with f1 show ?thesis by auto
    qed
  qed
qed

lemma process_loop_frame:
  "process_loop e sn te bf ld acc rs w = (res, w') \<Longrightarrow>
   reqs w' = reqs w \<and> wins w' = wins w \<and> static_params w' = static_params w
   \<and> pages w' = pages w"
proof (induction rs arbitrary: acc w)
  case Nil
  then show ?case by simp
next
  case (Cons r rs)
  obtain x w1 where p: "process_record e sn te bf ld acc r w = (x, w1)" by fastforce
  note f = process_record_frame[OF p]
  show ?case
  proof (cases x)
    case (Inl err)
    with Cons.prems p f show ?thesis by simp
  next
    case (Inr acc1)
    with Cons.prems p have "process_loop e sn te bf ld acc1 rs w1 = (res, w')" by simp
    from Cons.IH[OF this] f show ?thesis by simp
  qed
qed

lemma process_records_frame:
  "process_records e sn rs te bf mx ld w = (res, w') \<Longrightarrow>
   reqs w' = reqs w \<and> wins w' = wins w \<and> static_params w' = static_params w
   \<and> pages w' = pages w"
  unfolding process_records_def by (rule process_loop_frame)

lemma fetch_page_effect:
  assumes "fetch_page e a pr pid l w = (res, w2)"
  shows "wins w2 = wins w \<and> out w2 = out w \<and> pages w2 = pages w
     \<and> dict_keys (static_params w) \<subseteq> dict_keys (static_params w2)
     \<and> (\<exists>c. reqs w2 = reqs w @ [c] \<and> c_page c = Some (page l, offset l)
            \<and> c_params c = static_params w2)"
  using assms
  unfolding fetch_page_def Let_def
  by (auto split: sum.splits if_splits simp: dict_keys_update)

lemma check_keys_lacks: "lacks_id keys r \<Longrightarrow> \<exists>err. check_keys keys r = Inl err"
  by (induction keys) (auto simp: lacks_id_def split: json.splits)

lemma check_records_lacks:
  "\<exists>r \<in> set records. lacks_id keys r \<Longrightarrow> \<exists>err. check_records (Some keys) records = Inl err"
proof (induction records)
  case Nil
  then show ?case by simp
next
  case (Cons r rs)
  show ?case
  proof (cases "check_keys keys r")
    case (Inl err)
    then show ?thesis by simp
  next
    case (Inr u)
    with check_keys_lacks[of keys r] have "\<not> lacks_id keys r" by auto
    with Cons.prems have "\<exists>r \<in> set rs. lacks_id keys r" by auto
    from Cons.IH[OF this] Inr show ?thesis by simp
  qed
qed

lemma py_iter_truthy: "py_iter td = Inr records \<Longrightarrow> records \<noteq> [] \<Longrightarrow> truthy td"
  by (cases td) (auto simp: py_iter_def)

lemma check_records_bad:
  assumes "bad_page a records"
  shows "\<exists>err. check_records (cfg_key_properties (arg_endpoint_config a)) records = Inl err"
proof -
  from assms obtain keys where
    k: "cfg_key_properties (arg_endpoint_config a) = Some keys" and
    b: "\<exists>r \<in> set records. lacks_id keys r"
    by (auto simp: bad_page_def list_ex_iff split: option.splits)
  from check_records_lacks[OF b] k show ?thesis by simp
qed

lemma seen_fields:
  "reqs (seen rs w) = reqs w" "wins (seen rs w) = wins w"
  "static_params (seen rs w) = static_params w" "out (seen rs w) = out w"
  "pages (seen rs w) = pages w @ [(length (out w), rs)]"
  by (simp_all add: seen_def)

lemma page_body_shape:
  assumes "page_body e a pr pid l w = (res, w')"
    and "fetch_page e a pr pid l w = (fr, w2)"
  shows "reqs w' = reqs w2 \<and> wins w' = wins w2 \<and> static_params w' = static_params w2
      \<and> (pages w' = pages w2
          \<or> (\<exists>records. pages w' = pages w2 @ [(length (out w2), records)]
                \<and> (bad_page a records \<longrightarrow> isl res \<and> out w' = out w2)))
      \<and> (\<forall>l'. res = Inr l' \<longrightarrow> same_plan l l' \<and> page l' = page l \<and> offset l' = offset l
            \<and> endpoint_total l' = endpoint_total l)"
proof (cases fr)
  case (Inl err)
  with assms show ?thesis by (auto simp: page_body_def same_plan_def)
next
  case (Inr opt)
  show ?thesis
  proof (cases opt)
    case None
    with assms Inr show ?thesis by (auto simp: page_body_def same_plan_def)
  next
    case (Some fetched)
    note fs = assms(2)[unfolded Inr Some]
    show ?thesis
    proof (cases "truthy (snd fetched)")
      case False
      with assms(1) fs show ?thesis by (auto simp: page_body_def same_plan_def)
    next
      case True
      note tr = this
      show ?thesis
      proof (cases "py_iter (snd fetched)")
        case (Inl err)
        with assms(1) fs tr show ?thesis by (auto simp: page_body_def same_plan_def)
      next
        case (Inr records)
        note it = this
        show ?thesis
        proof (cases "check_records (cfg_key_properties (arg_endpoint_config a)) records")
          case (Inl err)
          with assms(1) fs tr it have "res = Inl err" "w' = seen records w2"
            by (auto simp: page_body_def)
          then show ?thesis by (auto simp: seen_fields)
        next
          case (Inr u)
          note ck = this
          with check_records_bad[of a records] have nb: "\<not> bad_page a records" by auto
          obtain x w3 where p: "process_records e (arg_stream_name a) records
               (utils_now e (reqs w2)) (arg_bookmark_field a)
               (max_bookmark_value l) (last_datetime l) (seen records w2) = (x, w3)"
            by fastforce
          from process_records_frame[OF p] have
            f3: "reqs w3 = reqs w2" "wins w3 = wins w2" "static_params w3 = static_params w2"
                "pages w3 = pages w2 @ [(length (out w2), records)]"
            by (simp_all add: seen_fields)
          have w': "w' = w3"
            using assms(1) fs tr it ck p
            by (cases x) (auto simp: page_body_def Let_def split: if_splits)
          have ls: "\<forall>l'. res = Inr l' \<longrightarrow> same_plan l l' \<and> page l' = page l
                \<and> offset l' = offset l \<and> endpoint_total l' = endpoint_total l"
            using assms(1) fs tr it ck p
            by (cases x) (auto simp: page_body_def Let_def same_plan_def split: if_splits)
          from f3 nb have "\<exists>records. pages w3 = pages w2 @ [(length (out w2), records)]
                \<and> (bad_page a records \<longrightarrow> isl res \<and> out w3 = out w2)"
            by blast
          with f3 w' ls show ?thesis by simp
        qed
      qed
    qed
  qed
qed

lemma page_body_effect:
  assumes "page_body e a pr pid l w = (res, w')"
  shows "wins w' = wins w
     \<and> dict_keys (static_params w) \<subseteq> dict_keys (static_params w')
     \<and> (\<exists>c. reqs w' = reqs w @ [c] \<and> c_page c = Some (page l, offset l)
            \<and> c_params c = static_params w')
     \<and> pages_ok a w (isl res) w'
     \<and> (\<forall>l'. res = Inr l' \<longrightarrow> same_plan l l' \<and> page l' = page l \<and> offset l' = offset l
            \<and> endpoint_total l' = endpoint_total l)"
proof -
  obtain fr w2 where f: "fetch_page e a pr pid l w = (fr, w2)" by fastforce
  from fetch_page_effect[OF f] obtain c where
    fe: "wins w2 = wins w" "dict_keys (static_params w) \<subseteq> dict_keys (static_params w2)"
        "reqs w2 = reqs w @ [c]" "c_page c = Some (page l, offset l)"
        "c_params c = static_params w2" "pages w2 = pages w" "out w2 = out w"
    by blast
  from page_body_shape[OF assms f] have
    fr: "reqs w' = reqs w2" "wins w' = wins w2" "static_params w' = static_params w2"
    and pg: "pages w' = pages w2
          \<or> (\<exists>records. pages w' = pages w2 @ [(length (out w2), records)]
                \<and> (bad_page a records \<longrightarrow> isl res \<and> out w' = out w2))"
    and lo: "\<forall>l'. res = Inr l' \<longrightarrow> same_plan l l' \<and> page l' = page l \<and> offset l' = offset l
            \<and> endpoint_total l' = endpoint_total l"
    by blast+
  from pg have P: "pages_ok a w (isl res) w'"
  proof
    assume "pages w' = pages w2"
    with fe(6) show ?thesis by (simp add: pages_ok_same)
  next
    assume "\<exists>records. pages w' = pages w2 @ [(length (out w2), records)]
                \<and> (bad_page a records \<longrightarrow> isl res \<and> out w' = out w2)"
    then obtain records where
      r: "pages w' = pages w2 @ [(length (out w2), records)]"
         "bad_page a records \<longrightarrow> isl res \<and> out w' = out w2" by blast
    show ?thesis
      unfolding pages_ok_def
      by (rule exI[of _ "[(length (out w2), records)]"]) (use r fe(6) in auto)
  qed
  have A: "wins w' = wins w" using fe fr by simp
  have B: "dict_keys (static_params w) \<subseteq> dict_keys (static_params w')" using fe fr by simp
  have C: "\<exists>c. reqs w' = reqs w @ [c] \<and> c_page c = Some (page l, offset l)
            \<and> c_params c = static_params w'"
    using fe fr by simp
  from A B C P lo show ?thesis by blast
qed

lemma page_loop_effect:
  "page_loop e a pr pid l w = (res, w') \<Longrightarrow>
   wins w' = wins w
   \<and> (\<exists>cs. reqs w' = reqs w @ cs \<and> params_grow (static_params w) cs (static_params w'))
   \<and> pages_ok a w (isl res) w'
   \<and> (\<forall>l'. res = Inr l' \<longrightarrow> same_plan l l')"
proof (induction e a pr pid l w rule: page_loop.induct)
  case (1 e a pr pid l w)
  show ?case
  proof (cases "num (total_records l)")
    case None
    with "1.prems" show ?thesis
      by (subst (asm) page_loop.simps) (auto simp: params_grow_refl same_plan_refl pages_ok_same)
  next
    case (Some tot)
    note n = this
    show ?thesis
    proof (cases "offset l \<le> tot \<and> session_id l \<noteq> JNull")
      case False
      with "1.prems" n show ?thesis
        by (subst (asm) page_loop.simps)
           (auto simp: params_grow_refl same_plan_refl pages_ok_same)
    next
      case True
      note c = this
      obtain x w1 where b: "page_body e a pr pid l w = (x, w1)" by fastforce
      from page_body_effect[OF b] obtain c1 where
        e1: "wins w1 = wins w" "dict_keys (static_params w) \<subseteq> dict_keys (static_params w1)"
            "reqs w1 = reqs w @ [c1]" "c_params c1 = static_params w1"
            "\<forall>l'. x = Inr l' \<longrightarrow> same_plan l l'"
        and p1: "pages_ok a w (isl x) w1"
        by blast
      from e1 have g1: "params_grow (static_params w) [c1] (static_params w1)"
        by (simp add: params_grow_single)
      from e1(3) g1 have B1: "\<exists>cs. reqs w1 = reqs w @ cs
          \<and> params_grow (static_params w) cs (static_params w1)" by blast
      show ?thesis
      proof (cases x)
        case (Inl err)
        with "1.prems" n c b have r: "res = Inl err" "w' = w1"
          by (subst (asm) page_loop.simps, simp)+
        from p1 Inl r have P: "pages_ok a w (isl res) w'" by simp
        from r e1(1) have A: "wins w' = wins w" by simp
        from r B1 have B: "\<exists>cs. reqs w' = reqs w @ cs
          \<and> params_grow (static_params w) cs (static_params w')" by simp
        from r have C: "\<forall>l'. res = Inr l' \<longrightarrow> same_plan l l'" by simp
        from A B P C show ?thesis by blast
      next
        case (Inr l1)
        note x = this
        from p1 x have p1': "pages_ok a w False w1" by simp
        show ?thesis
        proof (cases "num (total_records l1)")
          case None
          with "1.prems" n c b x have r: "res = Inl TypeError" "w' = w1"
            by (subst (asm) page_loop.simps, simp)+
          from p1' r have P: "pages_ok a w (isl res) w'" by (simp add: pages_ok_weaken)
          from r e1(1) have A: "wins w' = wins w" by simp
          from r B1 have B: "\<exists>cs. reqs w' = reqs w @ cs
            \<and> params_grow (static_params w) cs (static_params w')" by simp
          from r have C: "\<forall>l'. res = Inr l' \<longrightarrow> same_plan l l'" by simp
          from A B P C show ?thesis by blast
        next
          case (Some t)
          let ?l2 = "l1\<lparr>offset := offset l1 + limit, page := page l1 + 1,
                        endpoint_total := endpoint_total l1 + t\<rparr>"
          from "1.prems" n c b x Some have r: "page_loop e a pr pid ?l2 w1 = (res, w')"
            by (subst (asm) page_loop.simps) simp
          from "1.IH"[OF n c b[symmetric] x Some r] obtain cs where
            e2: "wins w' = wins w1" "reqs w' = reqs w1 @ cs"
                "params_grow (static_params w1) cs (static_params w')"
                "\<forall>l'. res = Inr l' \<longrightarrow> same_plan ?l2 l'"
            and p2: "pages_ok a w1 (isl res) w'"
            by blast
          from e1 x have "same_plan l l1" by simp
          then have sp: "same_plan l ?l2" by (simp add: same_plan_def)
          have C: "\<forall>l'. res = Inr l' \<longrightarrow> same_plan l l'"
            using e2(4) sp same_plan_trans by blast
          have "reqs w' = reqs w @ ([c1] @ cs)" using e1 e2 by simp
          moreover have "params_grow (static_params w) ([c1] @ cs) (static_params w')"
            using g1 e2(3) by (rule params_grow_trans)
          ultimately have B: "\<exists>cs. reqs w' = reqs w @ cs
              \<and> params_grow (static_params w) cs (static_params w')" by blast
          have A: "wins w' = wins w" using e1(1) e2(1) by simp
          have P: "pages_ok a w (isl res) w'" using p1' p2 by (rule pages_ok_trans)
          from A B P C show ?thesis by blast
        qed
      qed
    qed
  qed
qed

lemma parent_loop_effect:
  "parent_loop e a ps l w = (res, w') \<Longrightarrow>
   wins w' = wins w
   \<and> (\<exists>cs. reqs w' = reqs w @ cs \<and> params_grow (static_params w) cs (static_params w'))
   \<and> pages_ok a w (isl res) w'
   \<and> (\<forall>l'. res = Inr l' \<longrightarrow> same_plan l l')"
proof (induction ps arbitrary: l w)
  case Nil
  then show ?case by (auto simp: params_grow_refl same_plan_refl pages_ok_same)
next
  case (Cons p ps)
  show ?case
  proof (cases p)
    case (JObj d)
    let ?pid = "(case parent_id_field l of None \<Rightarrow> JNull | Some f \<Rightarrow> dict_get d f JNull)"
    let ?l0 = "l\<lparr>page := 0, offset := 0, total_records := JInt 0,
                  session_id := JStr ''initial''\<rparr>"
    let ?w0 = "(if cfg_pagination (arg_endpoint_config a)
                then w\<lparr>static_params :=
                        AList.update ''page_size'' (JInt limit) (static_params w)\<rparr>
                else w)"
    obtain x w1 where pl: "page_loop e a p ?pid ?l0 ?w0 = (x, w1)" by fastforce
    from page_loop_effect[OF pl] obtain cs where
      e1: "wins w1 = wins ?w0" "reqs w1 = reqs ?w0 @ cs"
          "params_grow (static_params ?w0) cs (static_params w1)"
          "\<forall>l'. x = Inr l' \<longrightarrow> same_plan ?l0 l'"
      and p1: "pages_ok a ?w0 (isl x) w1"
      by blast
    have k0: "params_grow (static_params w) [] (static_params ?w0)"
      by (simp add: params_grow_def dict_keys_update subset_insertI)
    from params_grow_trans[OF k0 e1(3)] have
      g1: "params_grow (static_params w) cs (static_params w1)" by simp
    have r1: "reqs w1 = reqs w @ cs" and v1: "wins w1 = wins w" using e1 by simp_all
    have "pages ?w0 = pages w" by simp
    with p1 have p1': "pages_ok a w (isl x) w1" by (simp add: pages_ok_def)
    from r1 g1 have B1: "\<exists>cs. reqs w1 = reqs w @ cs
        \<and> params_grow (static_params w) cs (static_params w1)" by blast
    show ?thesis
    proof (cases x)
      case (Inl err)
      with Cons.prems JObj pl have r: "res = Inl err" "w' = w1"
        by (simp_all add: Let_def)
      from p1' Inl r have P: "pages_ok a w (isl res) w'" by simp
      from r v1 have A: "wins w' = wins w" by simp
      from r B1 have B: "\<exists>cs. reqs w' = reqs w @ cs
        \<and> params_grow (static_params w) cs (static_params w')" by simp
      from r have C: "\<forall>l'. res = Inr l' \<longrightarrow> same_plan l l'" by simp
      from A B P C show ?thesis by blast
    next
      case (Inr l1)
      with Cons.prems JObj pl have r: "parent_loop e a ps l1 w1 = (res, w')"
        by (simp add: Let_def)
      from Cons.IH[OF r] obtain ds where
        e2: "wins w' = wins w1" "reqs w' = reqs w1 @ ds"
            "params_grow (static_params w1) ds (static_params w')"
            "\<forall>l'. res = Inr l' \<longrightarrow> same_plan l1 l'"
        and p2: "pages_ok a w1 (isl res) w'"
        by blast
      from e1(4) Inr have "same_plan ?l0 l1" by simp
      then have "same_plan l l1" by (simp add: same_plan_def)
      with e2(4) have C: "\<forall>l'. res = Inr l' \<longrightarrow> same_plan l l'"
        using same_plan_trans by blast
      have "reqs w' = reqs w @ (cs @ ds)" using r1 e2 by simp
      moreover have "params_grow (static_params w) (cs @ ds) (static_params w')"
        using g1 e2(3) by (rule params_grow_trans)
      ultimately have B: "\<exists>cs. reqs w' = reqs w @ cs
          \<and> params_grow (static_params w) cs (static_params w')" by blast
      have A: "wins w' = wins w" using v1 e2(1) by simp
      from p1' Inr have "pages_ok a w False w1" by simp
      then have P: "pages_ok a w (isl res) w'" using p2 by (rule pages_ok_trans)
      from A B P C show ?thesis by blast
    qed
  qed (use Cons.prems in \<open>auto simp: params_grow_refl pages_ok_same\<close>)
qed

lemma resolve_parents_effect:
  assumes "resolve_parents e a l w = (res, w')"
  shows "wins w' = wins w \<and> static_params w' = static_params w \<and> pages w' = pages w
     \<and> (\<exists>cs. reqs w' = reqs w @ cs \<and> params_grow (static_params w) cs (static_params w'))
     \<and> (\<forall>pd l'. res = Inr (pd, l') \<longrightarrow> same_plan l l')"
proof (cases "truthy_str (cfg_parent_path (arg_endpoint_config a)) \<and> truthy_str (parent_id_field l)")
  case False
  with assms have "w' = w" and "\<forall>pd l'. res = Inr (pd, l') \<longrightarrow> same_plan l l'"
    by (auto simp: resolve_parents_def same_plan_def)
  then show ?thesis by (auto simp: params_grow_refl)
next
  case True
  let ?rq = "\<lparr>r_method = Some ''GET'', r_url = cfg_url (arg_endpoint_config a),
                   r_path = cfg_parent_path (arg_endpoint_config a), r_params = None,
                   r_endpoint = ''parent_data''\<rparr>"
  let ?c = "\<lparr>c_request = ?rq, c_page = None, c_params = static_params w\<rparr>"
  from assms True have w': "w' = w\<lparr>reqs := reqs w @ [?c]\<rparr>"
    and l: "\<forall>pd l'. res = Inr (pd, l') \<longrightarrow> l' = l"
    by (auto simp: resolve_parents_def Let_def split: sum.splits)
  have "params_grow (static_params w) [?c] (static_params w')"
    by (rule params_grow_single) (simp_all add: w')
  moreover have "reqs w' = reqs w @ [?c]" by (simp add: w')
  ultimately have B: "\<exists>cs. reqs w' = reqs w @ cs
      \<and> params_grow (static_params w) cs (static_params w')" by blast
  from l have C: "\<forall>pd l'. res = Inr (pd, l') \<longrightarrow> same_plan l l'"
    by (simp add: same_plan_refl)
  have A: "wins w' = wins w \<and> static_params w' = static_params w \<and> pages w' = pages w"
    by (simp add: w')
  from A B C show ?thesis by (intro conjI) auto
qed

lemma write_bookmark_frame:
  "write_bookmark e sn v w = (r, w') \<Longrightarrow>
   reqs w' = reqs w \<and> wins w' = wins w \<and> static_params w' = static_params w
   \<and> pages w' = pages w"
  unfolding write_bookmark_def Let_def
  by (auto dest!: emit_frame)

lemma next_window_Inr:
  assumes "next_window l = Inr l'"
  shows "now_datetime l' = now_datetime l \<and> days_interval l' = days_interval l
     \<and> start_window l' = end_window l
     \<and> end_window l' = (if end_window l + days_interval l * day_us > now_datetime l
                         then now_datetime l else end_window l + days_interval l * day_us)
     \<and> MINDT \<le> end_window l + days_interval l * day_us"
  using assms
  unfolding next_window_def timedelta_days_def dt_add_def
  by (auto split: if_splits)

lemma window_body_effect:
  assumes "window_body e a tz l w = (res, w')"
  shows "wins w' = wins w @ [(start_window l, end_window l)]
     \<and> (\<exists>cs. reqs w' = reqs w @ cs \<and> params_grow (static_params w) cs (static_params w'))
     \<and> pages_ok a w (isl res) w'
     \<and> (\<forall>l'. res = Inr l' \<longrightarrow>
           now_datetime l' = now_datetime l \<and> days_interval l' = days_interval l
           \<and> start_window l' = end_window l
           \<and> end_window l' = (if end_window l + days_interval l * day_us > now_datetime l
                               then now_datetime l
                               else end_window l + days_interval l * day_us)
           \<and> MINDT \<le> end_window l + days_interval l * day_us)"
proof -
  let ?cfg = "arg_endpoint_config a"
  let ?w0 = "w\<lparr>wins := wins w @ [(start_window l, end_window l)]\<rparr>"
  let ?w1 = "(if truthy_str (cfg_bookmark_query_field_from ?cfg)
                   \<and> truthy_str (cfg_bookmark_query_field_to ?cfg)
                then ?w0\<lparr>static_params :=
                         AList.update (the (cfg_bookmark_query_field_to ?cfg))
                           (JStr (tz (end_window l)))
                           (AList.update (the (cfg_bookmark_query_field_from ?cfg))
                              (JStr (tz (start_window l))) (static_params ?w0))\<rparr>
                else ?w0)"
  have k1: "params_grow (static_params w) [] (static_params ?w1)"
    by (auto simp: params_grow_def dict_keys_update)
  have v1: "wins ?w1 = wins w @ [(start_window l, end_window l)]" and r1: "reqs ?w1 = reqs w"
    and q1: "pages ?w1 = pages w"
    by simp_all
  obtain x2 w2 where rp: "resolve_parents e a l ?w1 = (x2, w2)" by fastforce
  from resolve_parents_effect[OF rp] obtain cs where
    e2: "wins w2 = wins ?w1" "reqs w2 = reqs ?w1 @ cs"
        "params_grow (static_params ?w1) cs (static_params w2)"
        "\<forall>pd l'. x2 = Inr (pd, l') \<longrightarrow> same_plan l l'"
        "pages w2 = pages ?w1"
    by blast
  from params_grow_trans[OF k1 e2(3)] have
    g2: "params_grow (static_params w) cs (static_params w2)" by simp
  have v2: "wins w2 = wins w @ [(start_window l, end_window l)]" using e2(1) v1 by simp
  have r2: "reqs w2 = reqs w @ cs" using e2(2) r1 by simp
  have q2: "pages w2 = pages w" using e2(5) q1 by simp
  have P2: "pages_ok a w b w2" for b using q2 by (rule pages_ok_same)
  from g2 r2 have B2: "\<exists>cs. reqs w2 = reqs w @ cs
      \<and> params_grow (static_params w) cs (static_params w2)" by blast
  have body: "window_body e a tz l w =
      (case (x2, w2) of
           (Inl err, w2) \<Rightarrow> (Inl err, w2)
         | (Inr res, w2) \<Rightarrow>
             (case py_iter (fst res) of
                Inl err \<Rightarrow> (Inl err, w2)
              | Inr parents \<Rightarrow>
                  (case parent_loop e a parents (snd res) w2 of
                     (Inl err, w3) \<Rightarrow> (Inl err, w3)
                   | (Inr l3, w3) \<Rightarrow>
                       (case next_window l3 of
                          Inl err \<Rightarrow> (Inl err, w3)
                        | Inr l4 \<Rightarrow>
                            if truthy_str (arg_bookmark_field a) then
                              (case write_bookmark e (arg_stream_name a)
                                      (max_bookmark_value l4) w3 of
                                 (Inl err, w4) \<Rightarrow> (Inl err, w4)
                               | (Inr u, w4) \<Rightarrow> (Inr l4, w4))
                            else (Inr l4, w3)))))"
    unfolding window_body_def Let_def rp[symmetric] ..
  from assms body have R: "(case (x2, w2) of
           (Inl err, w2) \<Rightarrow> (Inl err, w2)
         | (Inr res, w2) \<Rightarrow>
             (case py_iter (fst res) of
                Inl err \<Rightarrow> (Inl err, w2)
              | Inr parents \<Rightarrow>
                  (case parent_loop e a parents (snd res) w2 of
                     (Inl err, w3) \<Rightarrow> (Inl err, w3)
                   | (Inr l3, w3) \<Rightarrow>
                       (case next_window l3 of
                          Inl err \<Rightarrow> (Inl err, w3)
                        | Inr l4 \<Rightarrow>
                            if truthy_str (arg_bookmark_field a) then
                              (case write_bookmark e (arg_stream_name a)
                                      (max_bookmark_value l4) w3 of
                                 (Inl err, w4) \<Rightarrow> (Inl err, w4)
                               | (Inr u, w4) \<Rightarrow> (Inr l4, w4))
                            else (Inr l4, w3))))) = (res, w')"
    by (simp only:)
  show ?thesis
  proof (cases x2)
    case (Inl err)
    with R have r: "res = Inl err" "w' = w2" by simp_all
    with B2 v2 P2[of True] show ?thesis by simp
  next
    case (Inr pr)
    note x2 = this
    from e2(4) x2 have sp1: "same_plan l (snd pr)" by (cases pr) simp
    from R x2 have R2: "(case py_iter (fst pr) of
                Inl err \<Rightarrow> (Inl err, w2)
              | Inr parents \<Rightarrow>
                  (case parent_loop e a parents (snd pr) w2 of
                     (Inl err, w3) \<Rightarrow> (Inl err, w3)
                   | (Inr l3, w3) \<Rightarrow>
                       (case next_window l3 of
                          Inl err \<Rightarrow> (Inl err, w3)
                        | Inr l4 \<Rightarrow>
                            if truthy_str (arg_bookmark_field a) then
                              (case write_bookmark e (arg_stream_name a)
                                      (max_bookmark_value l4) w3 of
                                 (Inl err, w4) \<Rightarrow> (Inl err, w4)
                               | (Inr u, w4) \<Rightarrow> (Inr l4, w4))
                            else (Inr l4, w3)))) = (res, w')"
      by simp
    show ?thesis
    proof (cases "py_iter (fst pr)")
      case (Inl err)
      with R2 have r: "res = Inl err" "w' = w2" by simp_all
      with B2 v2 P2[of True] show ?thesis by simp
    next
      case (Inr parents)
      note it = this
      obtain x3 w3 where pl: "parent_loop e a parents (snd pr) w2 = (x3, w3)" by fastforce
      from parent_loop_effect[OF pl] obtain ds where
        e3: "wins w3 = wins w2" "reqs w3 = reqs w2 @ ds"
            "params_grow (static_params w2) ds (static_params w3)"
            "\<forall>l'. x3 = Inr l' \<longrightarrow> same_plan (snd pr) l'"
        and p3: "pages_ok a w2 (isl x3) w3"
        by blast
      from p3 q2 have P3: "pages_ok a w (isl x3) w3" by (simp add: pages_ok_def)
      from params_grow_trans[OF g2 e3(3)] have
        g3: "params_grow (static_params w) (cs @ ds) (static_params w3)" .
      have v3: "wins w3 = wins w @ [(start_window l, end_window l)]" using e3(1) v2 by simp
      have r3: "reqs w3 = reqs w @ (cs @ ds)" using e3(2) r2 by simp
      from g3 r3 have B3: "\<exists>cs. reqs w3 = reqs w @ cs
          \<and> params_grow (static_params w) cs (static_params w3)" by blast
      from R2 it pl have R3: "(case x3 of
                     Inl err \<Rightarrow> (Inl err, w3)
                   | Inr l3 \<Rightarrow>
                       (case next_window l3 of
                          Inl err \<Rightarrow> (Inl err, w3)
                        | Inr l4 \<Rightarrow>
                            if truthy_str (arg_bookmark_field a) then
                              (case write_bookmark e (arg_stream_name a)
                                      (max_bookmark_value l4) w3 of
                                 (Inl err, w4) \<Rightarrow> (Inl err, w4)
                               | (Inr u, w4) \<Rightarrow> (Inr l4, w4))
                            else (Inr l4, w3))) = (res, w')"
        by simp
      show ?thesis
      proof (cases x3)
        case (Inl err)
        with R3 have r: "res = Inl err" "w' = w3" by simp_all
        with B3 v3 P3 Inl show ?thesis by simp
      next
        case (Inr l3)
        note x3 = this
        from e3(4) x3 sp1 have sp3: "same_plan l l3" using same_plan_trans by blast
        from P3 x3 have P3': "pages_ok a w False w3" by simp
        from R3 x3 have R4: "(case next_window l3 of
                          Inl err \<Rightarrow> (Inl err, w3)
                        | Inr l4 \<Rightarrow>
                            if truthy_str (arg_bookmark_field a) then
                              (case write_bookmark e (arg_stream_name a)
                                      (max_bookmark_value l4) w3 of
                                 (Inl err, w4) \<Rightarrow> (Inl err, w4)
                               | (Inr u, w4) \<Rightarrow> (Inr l4, w4))
                            else (Inr l4, w3)) = (res, w')"
          by simp
        show ?thesis
        proof (cases "next_window l3")
          case (Inl err)
          with R4 have r: "res = Inl err" "w' = w3" by simp_all
          with B3 v3 pages_ok_weaken[OF P3', of True] show ?thesis by simp
        next
          case (Inr l4)
          note nw = this
          let ?P = "\<lambda>l'. now_datetime l' = now_datetime l \<and> days_interval l' = days_interval l
               \<and> start_window l' = end_window l
               \<and> end_window l' = (if end_window l + days_interval l * day_us > now_datetime l
                               then now_datetime l
                               else end_window l + days_interval l * day_us)
               \<and> MINDT \<le> end_window l + days_interval l * day_us"
          from sp3 have eqs: "now_datetime l3 = now_datetime l" "days_interval l3 = days_interval l"
            "end_window l3 = end_window l"
            by (simp_all add: same_plan_def)
          from next_window_Inr[OF nw] have C: "?P l4"
            unfolding eqs .
          have res: "(res = Inr l4 \<and> w' = w3)
              \<or> (\<exists>x4 w4. write_bookmark e (arg_stream_name a) (max_bookmark_value l4) w3 = (x4, w4)
                    \<and> w' = w4 \<and> (res = Inr l4 \<or> (\<exists>err. res = Inl err)))"
          proof (cases "truthy_str (arg_bookmark_field a)")
            case False
            with R4 nw show ?thesis by simp
          next
            case True
            obtain x4 w4 where wb: "write_bookmark e (arg_stream_name a)
                 (max_bookmark_value l4) w3 = (x4, w4)" by fastforce
            from R4 nw True wb have "w' = w4 \<and> (res = Inr l4 \<or> (\<exists>err. res = Inl err))"
              by (cases x4) auto
            with wb show ?thesis by blast
          qed
          from res have fr: "reqs w' = reqs w3 \<and> wins w' = wins w3
              \<and> static_params w' = static_params w3 \<and> pages w' = pages w3"
            by (auto dest: write_bookmark_frame)
          then have "pages_ok a w3 (isl res) w'" by (simp add: pages_ok_same)
          with P3' have P: "pages_ok a w (isl res) w'" by (rule pages_ok_trans)
          from res have "res = Inr l4 \<or> (\<exists>err. res = Inl err)" by blast
          with C have D: "\<forall>l'. res = Inr l' \<longrightarrow> ?P l'" by blast
          from fr v3 have A: "wins w' = wins w @ [(start_window l, end_window l)]" by simp
          from fr B3 have B: "\<exists>cs. reqs w' = reqs w @ cs
              \<and> params_grow (static_params w) cs (static_params w')" by simp
          from A B P D show ?thesis by blast
        qed
      qed
    qed
  qed
qed


section \<open>The window loop\<close>

lemma window_loop_effect:
  assumes "window_loop e a tz l w = Some y"
  shows "(\<exists>cs. reqs (snd y) = reqs w @ cs
            \<and> params_grow (static_params w) cs (static_params (snd y)))
         \<and> pages_ok a w (isl (fst y)) (snd y)"
proof (rule window_loop.raw_induct[where P = "\<lambda>e a tz l w y.
         (\<exists>cs. reqs (snd y) = reqs w @ cs
            \<and> params_grow (static_params w) cs (static_params (snd y)))
         \<and> pages_ok a w (isl (fst y)) (snd y)", OF _ assms])
  fix f :: "env \<Rightarrow> sync_args \<Rightarrow> (int \<Rightarrow> string) \<Rightarrow> locals \<Rightarrow> world
              \<Rightarrow> ((error + locals) \<times> world) option"
    and e a tz l w y
  assume IH: "\<And>e a tz l w y. f e a tz l w = Some y \<Longrightarrow>
         (\<exists>cs. reqs (snd y) = reqs w @ cs
            \<and> params_grow (static_params w) cs (static_params (snd y)))
         \<and> pages_ok a w (isl (fst y)) (snd y)"
    and H: "(if start_window l < now_datetime l
             then case window_body e a tz l w of
                    (Inl err, w') \<Rightarrow> Some (Inl err, w')
                  | (Inr l', w') \<Rightarrow> f e a tz l' w'
             else Some (Inr l, w)) = Some y"
  show "(\<exists>cs. reqs (snd y) = reqs w @ cs
            \<and> params_grow (static_params w) cs (static_params (snd y)))
         \<and> pages_ok a w (isl (fst y)) (snd y)"
  proof (cases "start_window l < now_datetime l")
    case False
    with H have y: "y = (Inr l, w)" by simp
    have "reqs w = reqs w @ [] \<and> params_grow (static_params w) [] (static_params w)"
      by (simp add: params_grow_refl)
    then have B: "\<exists>cs. reqs w = reqs w @ cs
        \<and> params_grow (static_params w) cs (static_params w)"
      by blast
    have P: "pages_ok a w (isl (Inr l :: error + locals)) w" by (rule pages_ok_same) simp
    show ?thesis by (simp only: y fst_conv snd_conv) (rule conjI[OF B P])
  next
    case True
    obtain x w1 where b: "window_body e a tz l w = (x, w1)" by fastforce
    from window_body_effect[OF b] obtain cs where
      e1: "reqs w1 = reqs w @ cs" "params_grow (static_params w) cs (static_params w1)"
      and p1: "pages_ok a w (isl x) w1"
      by blast
    show ?thesis
    proof (cases x)
      case (Inl err)
      with H True b have "y = (Inl err, w1)" by simp
      with e1 p1 Inl show ?thesis by auto
    next
      case (Inr l1)
      with H True b have "f e a tz l1 w1 = Some y" by simp
      from IH[OF this] obtain ds where
        e2: "reqs (snd y) = reqs w1 @ ds"
            "params_grow (static_params w1) ds (static_params (snd y))"
        and p2: "pages_ok a w1 (isl (fst y)) (snd y)"
        by blast
      have "reqs (snd y) = reqs w @ (cs @ ds)" using e1 e2 by simp
      moreover have "params_grow (static_params w) (cs @ ds) (static_params (snd y))"
        using e1(2) e2(2) by (rule params_grow_trans)
      ultimately have B: "\<exists>cs. reqs (snd y) = reqs w @ cs
          \<and> params_grow (static_params w) cs (static_params (snd y))" by blast
      from p1 Inr have "pages_ok a w False w1" by simp
      then have "pages_ok a w (isl (fst y)) (snd y)" using p2 by (rule pages_ok_trans)
      with B show ?thesis by blast
    qed
  qed
qed

lemma window_loop_tiles:
  assumes "start_window l \<le> end_window l" and "end_window l \<le> now_datetime l"
    and "start_window l < now_datetime l \<longrightarrow> start_window l < end_window l"
    and "0 < days_interval l"
  shows "\<exists>res w'. window_loop e a tz l w = Some (res, w')
     \<and> (\<exists>ws. wins w' = wins w @ ws
          \<and> (case res of
                Inr l' \<Rightarrow> tiles (start_window l) ws (now_datetime l)
              | Inl err \<Rightarrow> chained (start_window l) ws (now_datetime l)))"
  using assms
proof (induction "nat (now_datetime l - start_window l)" arbitrary: l w rule: less_induct)
  case less
  show ?case
  proof (cases "start_window l < now_datetime l")
    case False
    with less.prems have "start_window l = now_datetime l" by simp
    moreover from False have "window_loop e a tz l w = Some (Inr l, w)"
      by (subst window_loop.simps) simp
    ultimately show ?thesis by simp
  next
    case True
    with less.prems have se: "start_window l < end_window l" by simp
    obtain x w1 where b: "window_body e a tz l w = (x, w1)" by fastforce
    from window_body_effect[OF b] have
      v1: "wins w1 = wins w @ [(start_window l, end_window l)]" and
      n1: "\<forall>l'. x = Inr l' \<longrightarrow>
           now_datetime l' = now_datetime l \<and> days_interval l' = days_interval l
           \<and> start_window l' = end_window l
           \<and> end_window l' = (if end_window l + days_interval l * day_us > now_datetime l
                               then now_datetime l
                               else end_window l + days_interval l * day_us)
           \<and> MINDT \<le> end_window l + days_interval l * day_us"
      by blast+
    show ?thesis
    proof (cases x)
      case (Inl err)
      with True b have "window_loop e a tz l w = Some (Inl err, w1)"
        by (subst window_loop.simps) simp
      moreover have "chained (start_window l) [(start_window l, end_window l)] (now_datetime l)"
        using se less.prems by simp
      ultimately show ?thesis using v1 by auto
    next
      case (Inr l1)
      with n1 have f: "now_datetime l1 = now_datetime l" "days_interval l1 = days_interval l"
        "start_window l1 = end_window l"
        "end_window l1 = (if end_window l + days_interval l * day_us > now_datetime l
                               then now_datetime l
                               else end_window l + days_interval l * day_us)"
        by simp_all
      have step: "0 < days_interval l * day_us"
        using less.prems(4) by (simp add: day_us_def)
      have i1: "start_window l1 \<le> end_window l1" using f step less.prems by auto
      have i2: "end_window l1 \<le> now_datetime l1" using f by auto
      have i3: "start_window l1 < now_datetime l1 \<longrightarrow> start_window l1 < end_window l1"
        using f step by auto
      have i4: "0 < days_interval l1" using f less.prems by simp
      have m: "nat (now_datetime l1 - start_window l1) < nat (now_datetime l - start_window l)"
        using f se True by simp
      from less.hyps[OF m i1 i2 i3 i4, of w1] obtain res w' ws where
        r: "window_loop e a tz l1 w1 = Some (res, w')" and
        v: "wins w' = wins w1 @ ws" and
        t: "(case res of
                Inr l' \<Rightarrow> tiles (start_window l1) ws (now_datetime l1)
              | Inl err \<Rightarrow> chained (start_window l1) ws (now_datetime l1))"
        by blast
      from True b Inr r have r': "window_loop e a tz l w = Some (res, w')"
        by (subst window_loop.simps) simp
      have v': "wins w' = wins w @ ((start_window l, end_window l) # ws)"
        using v v1 by simp
      have t': "(case res of
                Inr l' \<Rightarrow> tiles (start_window l) ((start_window l, end_window l) # ws) (now_datetime l)
              | Inl err \<Rightarrow> chained (start_window l) ((start_window l, end_window l) # ws) (now_datetime l))"
        using t f se less.prems(2) by (cases res) simp_all
      from r' v' t' show ?thesis by blast
    qed
  qed
qed

end
